theory Spec2Isabelle
  imports Complex_Main
begin

section \<open>NumPy arrays and Python exceptions\<close>

text \<open>
  The model follows \<^verbatim>\<open>vmodel.py\<close>, class \<^verbatim>\<open>Model1d\<close>. Python floats are modelled
  as real numbers (no rounding, no NaN), a one-dimensional \<^verbatim>\<open>numpy\<close> array as a list of
  reals. Every exception the code can raise is a value: \<^verbatim>\<open>ValueError\<close> carries
  its message, \<^verbatim>\<open>IndexError\<close> comes from indexing, \<^verbatim>\<open>AttributeError\<close> from reading
  an attribute the instance does not have, \<^verbatim>\<open>KeyError\<close> from a dictionary lookup.
\<close>

datatype error = ValueError string | IndexError | AttributeError | KeyError

type_synonym ndarray = "real list"

definition ebind :: "error + 'a \<Rightarrow> ('a \<Rightarrow> error + 'b) \<Rightarrow> error + 'b" where
  "ebind m f = (case m of Inl e \<Rightarrow> Inl e | Inr v \<Rightarrow> f v)"

text \<open>\<^verbatim>\<open>a[0]\<close>, \<^verbatim>\<open>a[-1]\<close> and \<^verbatim>\<open>a[i]\<close> for a Python integer \<open>i\<close> (negative indices count
  from the end); each raises \<^verbatim>\<open>IndexError\<close> out of range.\<close>

definition item0 :: "'a list \<Rightarrow> error + 'a" where
  "item0 xs = (case xs of [] \<Rightarrow> Inl IndexError | x # _ \<Rightarrow> Inr x)"

definition item_last :: "'a list \<Rightarrow> error + 'a" where
  "item_last xs = (if xs = [] then Inl IndexError else Inr (last xs))"

definition item :: "'a list \<Rightarrow> int \<Rightarrow> error + 'a" where
  "item xs i =
     (if 0 \<le> i \<and> i < int (length xs) then Inr (xs ! nat i)
      else if i < 0 \<and> - int (length xs) \<le> i then Inr (xs ! nat (int (length xs) + i))
      else Inl IndexError)"

text \<open>\<^verbatim>\<open>a[mask]\<close> for a boolean array \<open>mask\<close>: the elements at the true positions, in a new
  array; \<^verbatim>\<open>IndexError\<close> when the lengths differ.\<close>

definition masked :: "'a list \<Rightarrow> bool list \<Rightarrow> 'a list" where
  "masked xs m = map fst (filter snd (zip xs m))"

definition np_mask :: "'a list \<Rightarrow> bool list \<Rightarrow> error + 'a list" where
  "np_mask xs m = (if length m = length xs then Inr (masked xs m) else Inl IndexError)"

text \<open>An elementwise binary operation on two one-dimensional arrays, with NumPy's
  broadcasting of a length-one operand.\<close>

definition broadcast :: "('a \<Rightarrow> 'b \<Rightarrow> 'c) \<Rightarrow> 'a list \<Rightarrow> 'b list \<Rightarrow> error + 'c list" where
  "broadcast f xs ys =
     (if length xs = length ys then Inr (map2 f xs ys)
      else if length ys = 1 then Inr (map (\<lambda>x. f x (hd ys)) xs)
      else if length xs = 1 then Inr (map (\<lambda>y. f (hd xs) y) ys)
      else Inl (ValueError ''operands could not be broadcast together''))"

fun cumsum_from :: "real \<Rightarrow> real list \<Rightarrow> real list" where
  "cumsum_from acc [] = []"
| "cumsum_from acc (x # xs) = (acc + x) # cumsum_from (acc + x) xs"

definition np_cumsum :: "ndarray \<Rightarrow> ndarray" where
  "np_cumsum xs = cumsum_from 0 xs"

text \<open>\<^verbatim>\<open>a[index] = a[index] * c\<close> for a boolean array \<open>index\<close>: the new contents of \<open>a\<close>.\<close>

definition scale_masked :: "ndarray \<Rightarrow> bool list \<Rightarrow> real \<Rightarrow> error + ndarray" where
  "scale_masked xs m c =
     (if length m = length xs then Inr (map2 (\<lambda>x b. if b then x * c else x) xs m)
      else Inl IndexError)"

text \<open>\<^verbatim>\<open>np.sqrt\<close>; on a negative argument NumPy returns NaN, which the reals do not
  have, so statements about it assume a non-negative argument.\<close>

definition np_sqrt :: "real \<Rightarrow> real" where
  "np_sqrt x = sqrt x"


section \<open>The instance and the heap of arrays\<close>

text \<open>
  A \<^verbatim>\<open>Model1d\<close> instance holds its columns as attributes that refer to array objects.
  Two attributes may refer to the same array (the constructor stores \<^verbatim>\<open>VsArr\<close> under both
  \<^verbatim>\<open>VsvArr\<close> and \<^verbatim>\<open>VshArr\<close>), and \<^verbatim>\<open>perturb\<close> writes into arrays in place, so the arrays
  live in a heap indexed by references and the instance maps attribute names to
  references. An attribute that the instance does not have maps to \<open>None\<close>.
  \<open>fresh\<close> is the next unused reference.
\<close>

datatype modeltype = ISOTROPIC | TRANSVERSE_ISOTROPIC

datatype attr =
  HArr | VsArr | VpArr | VsvArr | VpvArr | VshArr | VphArr | VpfArr
  | rhoArr | QpArr | QsArr | etapArr | etasArr | frefpArr | frefsArr | DepthArr

type_synonym ref = nat

record pystate =
  modeltype :: modeltype
  attrs :: "attr \<Rightarrow> ref option"
  heap :: "ref \<Rightarrow> ndarray"
  fresh :: ref

type_synonym self = "attr \<Rightarrow> ndarray option"

type_synonym result = "(error \<times> pystate) + pystate"

text \<open>The attribute values of the instance, and reading one (\<^verbatim>\<open>self.a\<close>).\<close>

definition self_of :: "pystate \<Rightarrow> self" where
  "self_of s a = map_option (heap s) (attrs s a)"

definition rd :: "self \<Rightarrow> attr \<Rightarrow> error + ndarray" where
  "rd slf a = (case slf a of None \<Rightarrow> Inl AttributeError | Some v \<Rightarrow> Inr v)"

text \<open>\<^verbatim>\<open>self.a = <expression>\<close> where the expression builds a new array
  (\<^verbatim>\<open>np.append\<close>, boolean indexing, \<^verbatim>\<open>np.cumsum\<close>): the array is allocated at a fresh
  reference. An exception in the expression leaves the state as it is.\<close>

definition alloc :: "attr \<Rightarrow> ndarray \<Rightarrow> pystate \<Rightarrow> pystate" where
  "alloc a v s =
     s\<lparr>attrs := (attrs s)(a \<mapsto> fresh s), heap := (heap s)(fresh s := v), fresh := Suc (fresh s)\<rparr>"

definition assign :: "attr \<Rightarrow> (self \<Rightarrow> error + ndarray) \<Rightarrow> pystate \<Rightarrow> result" where
  "assign a rhs s = (case rhs (self_of s) of Inl e \<Rightarrow> Inl (e, s) | Inr v \<Rightarrow> Inr (alloc a v s))"

text \<open>\<^verbatim>\<open>self.a = r\<close> for an array object \<open>r\<close> passed in by the caller.\<close>

definition setref :: "attr \<Rightarrow> ref \<Rightarrow> pystate \<Rightarrow> pystate" where
  "setref a r s = s\<lparr>attrs := (attrs s)(a \<mapsto> r)\<rparr>"

text \<open>\<^verbatim>\<open>self.a[0] = <expression>\<close>: written into the array \<open>a\<close> refers to.\<close>

definition setitem0 :: "attr \<Rightarrow> (self \<Rightarrow> error + real) \<Rightarrow> pystate \<Rightarrow> result" where
  "setitem0 a rhs s =
     (case rhs (self_of s) of
        Inl e \<Rightarrow> Inl (e, s)
      | Inr v \<Rightarrow>
         (case attrs s a of
            None \<Rightarrow> Inl (AttributeError, s)
          | Some r \<Rightarrow>
             (if heap s r = [] then Inl (IndexError, s)
              else Inr (s\<lparr>heap := (heap s)(r := (heap s r)[0 := v])\<rparr>))))"

text \<open>\<^verbatim>\<open>self.a[index] = self.a[index]*(1.+dm)\<close>: written into the array \<open>a\<close> refers to,
  so every attribute that refers to the same array sees it.\<close>

definition scale_inplace :: "attr \<Rightarrow> bool list \<Rightarrow> real \<Rightarrow> pystate \<Rightarrow> result" where
  "scale_inplace a index c s =
     (case attrs s a of
        None \<Rightarrow> Inl (AttributeError, s)
      | Some r \<Rightarrow>
         (case scale_masked (heap s r) index c of
            Inl e \<Rightarrow> Inl (e, s)
          | Inr v \<Rightarrow> Inr (s\<lparr>heap := (heap s)(r := v)\<rparr>)))"

definition then_do :: "result \<Rightarrow> (pystate \<Rightarrow> result) \<Rightarrow> result" where
  "then_do r f = (case r of Inl e \<Rightarrow> Inl e | Inr s \<Rightarrow> f s)"

text \<open>A statement that first evaluates an expression in state \<open>s\<close>.\<close>

definition with_value :: "error + 'a \<Rightarrow> pystate \<Rightarrow> ('a \<Rightarrow> result) \<Rightarrow> result" where
  "with_value m s f = (case m of Inl e \<Rightarrow> Inl (e, s) | Inr v \<Rightarrow> f v)"

text \<open>A run of statements of one shape, one per column, in the order of the source.\<close>

fun for_each :: "'a list \<Rightarrow> ('a \<Rightarrow> pystate \<Rightarrow> result) \<Rightarrow> pystate \<Rightarrow> result" where
  "for_each [] f s = Inr s"
| "for_each (x # xs) f s = then_do (f x s) (for_each xs f)"

text \<open>A run of local variables of one shape, one per column, in the order of the source;
  the first exception ends it.\<close>

fun collect :: "'a list \<Rightarrow> ('a \<Rightarrow> error + 'b) \<Rightarrow> error + ('a \<times> 'b) list" where
  "collect [] f = Inr []"
| "collect (x # xs) f = ebind (f x) (\<lambda>v. ebind (collect xs f) (\<lambda>vs. Inr ((x, v) # vs)))"


section \<open>The columns of a model\<close>

text \<open>Every block of \<^verbatim>\<open>addlayer\<close> treats the columns in this order: \<^verbatim>\<open>HArr\<close>, the
  velocity columns of the model type, then the seven common columns.\<close>

definition velocity_columns :: "modeltype \<Rightarrow> attr list" where
  "velocity_columns mt =
     (case mt of
        ISOTROPIC \<Rightarrow> [VpArr, VsArr]
      | TRANSVERSE_ISOTROPIC \<Rightarrow> [VpvArr, VsvArr, VphArr, VshArr, VpfArr])"

definition common_columns :: "attr list" where
  "common_columns = [rhoArr, QpArr, QsArr, etapArr, etasArr, frefpArr, frefsArr]"

definition columns :: "modeltype \<Rightarrow> attr list" where
  "columns mt = HArr # velocity_columns mt @ common_columns"

text \<open>The argument of \<^verbatim>\<open>addlayer\<close> that each column receives.\<close>

definition layer ::
  "real \<Rightarrow> real \<Rightarrow> real \<Rightarrow> real \<Rightarrow> real \<Rightarrow> real \<Rightarrow> real \<Rightarrow> real \<Rightarrow> real \<Rightarrow> real \<Rightarrow> real
     \<Rightarrow> real \<Rightarrow> real \<Rightarrow> attr \<Rightarrow> real" where
  "layer H vsv vsh vpv vph vpf rho Qp Qs etap etas frefp frefs a =
     (case a of
        HArr \<Rightarrow> H
      | VsArr \<Rightarrow> vsv | VpArr \<Rightarrow> vpv
      | VsvArr \<Rightarrow> vsv | VpvArr \<Rightarrow> vpv | VshArr \<Rightarrow> vsh | VphArr \<Rightarrow> vph | VpfArr \<Rightarrow> vpf
      | rhoArr \<Rightarrow> rho | QpArr \<Rightarrow> Qp | QsArr \<Rightarrow> Qs
      | etapArr \<Rightarrow> etap | etasArr \<Rightarrow> etas | frefpArr \<Rightarrow> frefp | frefsArr \<Rightarrow> frefs
      | DepthArr \<Rightarrow> 0)"


section \<open>\<^verbatim>\<open>Model1d.addlayer\<close>\<close>

text \<open>The defaults of the Brocher crust (lines 175 and 178).\<close>

definition brocher_vp :: "real \<Rightarrow> real" where
  "brocher_vp vsv = 0.9409 + 2.0947 * vsv - 0.8206 * vsv ^ 2 + 0.2683 * vsv ^ 3 - 0.0251 * vsv ^ 4"

definition brocher_rho :: "real \<Rightarrow> real" where
  "brocher_rho vpv =
     1.6612 * vpv - 0.4721 * vpv ^ 2 + 0.0671 * vpv ^ 3 - 0.0043 * vpv ^ 4 + 0.000106 * vpv ^ 5"

text \<open>Case 1, lines 181 to 198: the new layer is appended. In the transverse-isotropic
  branch the source reads \<^verbatim>\<open>self.VpArr\<close> and \<^verbatim>\<open>self.VsArr\<close> for \<^verbatim>\<open>VphArr\<close> and \<^verbatim>\<open>VshArr\<close>
  (lines 188 and 189).\<close>

definition append_source :: "attr \<Rightarrow> attr" where
  "append_source a = (if a = VphArr then VpArr else if a = VshArr then VsArr else a)"

definition update_depth :: "pystate \<Rightarrow> result" where
  "update_depth s = assign DepthArr (\<lambda>slf. ebind (rd slf HArr) (\<lambda>h. Inr (np_cumsum h))) s"

definition addlayer_append :: "(attr \<Rightarrow> real) \<Rightarrow> pystate \<Rightarrow> result" where
  "addlayer_append new s =
     then_do
       (for_each (columns (modeltype s))
          (\<lambda>a. assign a (\<lambda>slf. ebind (rd slf (append_source a)) (\<lambda>x. Inr (x @ [new a])))) s)
       update_depth"

text \<open>Case 2, lines 200 to 238: the layers with bottom depth at most \<open>H\<close> are dropped, the
  first remaining layer is shortened, the new layer is put first.\<close>

definition addlayer_prepend :: "real \<Rightarrow> (attr \<Rightarrow> real) \<Rightarrow> pystate \<Rightarrow> result" where
  "addlayer_prepend H new s =
     then_do
       (for_each (columns (modeltype s))
          (\<lambda>a. assign a (\<lambda>slf. ebind (rd slf a) (\<lambda>x. ebind (rd slf DepthArr) (\<lambda>D.
                  np_mask x (map (\<lambda>d. d > H) D))))) s)
       (\<lambda>s1. then_do
          (setitem0 HArr (\<lambda>slf. ebind (rd slf DepthArr) (\<lambda>D.
                  ebind (np_mask D (map (\<lambda>d. d > H) D)) (\<lambda>k.
                  ebind (item0 k) (\<lambda>d0. Inr (d0 - H))))) s1)
       (\<lambda>s2. then_do
          (for_each (columns (modeltype s2))
             (\<lambda>a. assign a (\<lambda>slf. ebind (rd slf a) (\<lambda>x. Inr (new a # x)))) s2)
          update_depth))"

text \<open>Case 3, lines 240 to 384. The local arrays \<^verbatim>\<open>...ArrT\<close> (the layers above \<open>zmin\<close> and,
  when \<open>zmin\<close> is inside a layer, the upper piece of that layer) and \<^verbatim>\<open>...ArrB\<close> (the
  lower piece of the layer that holds \<open>zmax\<close>, and the layers below) are computed first;
  only then are the attributes assigned. \<open>select_columns\<close> is one run of
  \<^verbatim>\<open>XArrT = self.XArr[mask]\<close> (lines 243 to 259, 296 to 312), \<open>first_entries\<close> one run of
  \<^verbatim>\<open>tX = (self.XArr[mask])[0]\<close> (lines 262 to 277), \<open>last_entries\<close> one run of
  \<^verbatim>\<open>bX = (self.XArr[mask])[-1]\<close> (lines 315 to 330).\<close>

definition select_columns :: "attr list \<Rightarrow> self \<Rightarrow> bool list \<Rightarrow> error + (attr \<times> ndarray) list" where
  "select_columns cols slf m = collect cols (\<lambda>a. ebind (rd slf a) (\<lambda>x. np_mask x m))"

definition first_entries :: "attr list \<Rightarrow> self \<Rightarrow> bool list \<Rightarrow> error + (attr \<times> real) list" where
  "first_entries cols slf m =
     collect cols (\<lambda>a. ebind (rd slf a) (\<lambda>x. ebind (np_mask x m) item0))"

definition last_entries :: "attr list \<Rightarrow> self \<Rightarrow> bool list \<Rightarrow> error + (attr \<times> real) list" where
  "last_entries cols slf m =
     collect cols (\<lambda>a. ebind (rd slf a) (\<lambda>x. ebind (np_mask x m) item_last))"

definition interior_locals ::
  "real \<Rightarrow> real \<Rightarrow> modeltype \<Rightarrow> self \<Rightarrow> error + ((attr \<times> ndarray) list \<times> (attr \<times> ndarray) list)" where
  "interior_locals H zmin mt slf =
     (let zmax = zmin + H; cols = columns mt in
      ebind (rd slf DepthArr) (\<lambda>D.
      ebind (rd slf HArr) (\<lambda>Hs.
      ebind (broadcast (\<lambda>d h. d - h) D Hs) (\<lambda>topArr.
      ebind (select_columns cols slf (map (\<lambda>d. d \<le> zmin) D)) (\<lambda>T.
      ebind (ebind (np_mask topArr (map (\<lambda>d. d > zmin) D)) item0) (\<lambda>t0.
      let tH = zmin - t0 in
      ebind (if tH \<noteq> 0
             then ebind (first_entries (tl cols) slf (map (\<lambda>d. d > zmin) D))
                    (\<lambda>t. Inr (map2 (\<lambda>(a, v) (b, f). (a, v @ [f])) T ((HArr, tH) # t)))
             else Inr T) (\<lambda>T'.
      ebind (select_columns cols slf (map (\<lambda>t. t \<ge> zmax) topArr)) (\<lambda>B.
      ebind (ebind (np_mask D (map (\<lambda>t. t < zmax) topArr)) item_last) (\<lambda>b0.
      let bH = b0 - zmax in
      ebind (if bH \<noteq> 0
             then ebind (last_entries (tl cols) slf (map (\<lambda>t. t < zmax) topArr))
                    (\<lambda>b. Inr (map2 (\<lambda>(a, v) (c, f). (a, f # v)) B ((HArr, bH) # b)))
             else Inr B) (\<lambda>B'.
      Inr (T', B')))))))))))"

definition addlayer_interior :: "real \<Rightarrow> (attr \<Rightarrow> real) \<Rightarrow> real \<Rightarrow> pystate \<Rightarrow> result" where
  "addlayer_interior H new zmin s =
     (case interior_locals H zmin (modeltype s) (self_of s) of
        Inl e \<Rightarrow> Inl (e, s)
      | Inr (T', B') \<Rightarrow>
          then_do (for_each T' (\<lambda>(a, v). assign a (\<lambda>slf. Inr (v @ [new a]))) s)
          (\<lambda>s1. then_do
             (for_each B' (\<lambda>(a, v). assign a (\<lambda>slf. ebind (rd slf a) (\<lambda>x. Inr (x @ v)))) s1)
             update_depth))"

text \<open>\<^verbatim>\<open>addlayer\<close> itself: the optional arguments are \<open>None\<close> when the caller leaves them
  out; the numeric defaults \<^verbatim>\<open>Qp=310., Qs=150., etap=0.0, etas=0.0, frefp=1.0, frefs=1.0,
  zmin=9999.\<close> are the caller's to pass.\<close>

definition addlayer ::
  "real \<Rightarrow> real \<Rightarrow> real option \<Rightarrow> real option \<Rightarrow> real option \<Rightarrow> real option \<Rightarrow> real option
     \<Rightarrow> real \<Rightarrow> real \<Rightarrow> real \<Rightarrow> real \<Rightarrow> real \<Rightarrow> real \<Rightarrow> real \<Rightarrow> pystate \<Rightarrow> result" where
  "addlayer H vsv vsh vpv vph vpf rho Qp Qs etap etas frefp frefs zmin s =
     (let vpv1 = (case vpv of None \<Rightarrow> brocher_vp vsv | Some v \<Rightarrow> v);
          vph1 = (case vph of None \<Rightarrow> vpv1 | Some v \<Rightarrow> v);
          vsh1 = (case vsh of None \<Rightarrow> vsv | Some v \<Rightarrow> v);
          rho1 = (case rho of None \<Rightarrow> brocher_rho vpv1 | Some v \<Rightarrow> v);
          vpf1 = (case vpf of None \<Rightarrow> np_sqrt (vpv1 ^ 2 - 2 * vsv ^ 2) | Some v \<Rightarrow> v);
          new = layer H vsv vsh1 vpv1 vph1 vpf1 rho1 Qp Qs etap etas frefp frefs
      in case ebind (rd (self_of s) DepthArr) item_last of
           Inl e \<Rightarrow> Inl (e, s)
         | Inr bottom \<Rightarrow>
             if zmin \<ge> bottom then addlayer_append new s
             else if zmin \<le> 0 then addlayer_prepend H new s
             else addlayer_interior H new zmin s)"

section \<open>\<^verbatim>\<open>Model1d.perturb\<close>\<close>

definition msg_range :: string where
  "msg_range = ''Model parameter perturbation should be within [-1, 1] !''"

definition msg_not_isotropic :: string where
  "msg_not_isotropic = ''datatype of vp/vs is not accepted when model is not isotropic !''"

definition msg_not_TI :: string where
  "msg_not_TI = ''datatype of vpv/vsv/vph/vsh is not accepted when model is not TI !''"

text \<open>Lines 533 to 555. \<open>Ht\<close>, \<open>indext\<close> and \<open>z1\<close> are bound together in the \<^verbatim>\<open>else\<close>
  branch of line 539; when \<^verbatim>\<open>np.any(topArr == zmin)\<close> holds only \<^verbatim>\<open>Ht = 0.\<close> is bound,
  which is \<open>None\<close> here. The same for \<open>Hb\<close>, \<open>indexb\<close> and \<open>z2\<close>.\<close>

definition perturb_locals ::
  "real \<Rightarrow> real \<Rightarrow> self
     \<Rightarrow> error + ((real \<times> int \<times> real) option \<times> (real \<times> int \<times> real) option \<times> bool list)" where
  "perturb_locals zmin zmax slf =
     ebind (rd slf DepthArr) (\<lambda>D.
     ebind (rd slf HArr) (\<lambda>Hs.
     ebind (broadcast (\<lambda>d h. d - h) D Hs) (\<lambda>topArr.
     let bottomArr = D;
         indexArr = map int [0..<length Hs];
         indexT = map (\<lambda>t. t \<ge> zmin) topArr;
         indexB = map (\<lambda>b. b \<le> zmax) bottomArr in
     ebind (if list_ex (\<lambda>t. t = zmin) topArr then Inr None
            else ebind (ebind (np_mask topArr (map (\<lambda>t. t > zmin) topArr)) item0) (\<lambda>t0.
                 ebind (ebind (np_mask indexArr indexT) item0) (\<lambda>i0.
                 Inr (Some (t0 - zmin, i0 - 1, zmin))))) (\<lambda>tp.
     ebind (if list_ex (\<lambda>b. b = zmax) bottomArr then Inr None
            else ebind (item0 bottomArr) (\<lambda>b0.
                 if zmax < b0 then Inr (Some (zmax, 0, 0))
                 else ebind (ebind (np_mask bottomArr (map (\<lambda>b. b < zmax) bottomArr)) item_last) (\<lambda>bl.
                      ebind (ebind (np_mask indexArr indexB) item_last) (\<lambda>il.
                      ebind (ebind (np_mask bottomArr (map (\<lambda>b. b < zmax) bottomArr)) item_last) (\<lambda>z2.
                      Inr (Some (zmax - bl, il + 1, z2))))))) (\<lambda>bt.
     ebind (broadcast (\<lambda>t b. t \<and> b) indexT indexB) (\<lambda>index.
     Inr (tp, bt, index)))))))"

text \<open>The column that each \<^verbatim>\<open>if datatype == ...\<close> branch of lines 556 to 797 multiplies;
  any other string matches no branch.\<close>

definition target_column :: "string \<Rightarrow> attr option" where
  "target_column dtype =
     (if dtype = ''vp'' then Some VpArr
      else if dtype = ''vs'' then Some VsArr
      else if dtype = ''vpv'' then Some VpvArr
      else if dtype = ''vph'' then Some VphArr
      else if dtype = ''vsv'' then Some VsvArr
      else if dtype = ''vsh'' then Some VshArr
      else if dtype = ''vpf'' then Some VpfArr
      else if dtype = ''rho'' then Some rhoArr
      else if dtype = ''qp'' then Some QpArr
      else if dtype = ''qs'' then Some QsArr
      else if dtype = ''etap'' then Some etapArr
      else if dtype = ''etas'' then Some etasArr
      else if dtype = ''frefp'' then Some frefpArr
      else if dtype = ''frefs'' then Some frefsArr
      else None)"

text \<open>The branches for \<^verbatim>\<open>vp\<close> and \<^verbatim>\<open>vs\<close> call \<^verbatim>\<open>addlayer\<close> with the isotropic columns, those
  for \<^verbatim>\<open>vpv\<close>, \<^verbatim>\<open>vph\<close>, \<^verbatim>\<open>vsv\<close>, \<^verbatim>\<open>vsh\<close> and \<^verbatim>\<open>vpf\<close> with the transverse-isotropic columns,
  and the branches for the common columns exist once under each model type
  (lines 642 and 713).\<close>

definition branch_variant :: "string \<Rightarrow> modeltype \<Rightarrow> modeltype" where
  "branch_variant dtype mt =
     (if dtype = ''vp'' \<or> dtype = ''vs'' then ISOTROPIC
      else if dtype = ''vpv'' \<or> dtype = ''vph'' \<or> dtype = ''vsv'' \<or> dtype = ''vsh'' \<or> dtype = ''vpf''
      then TRANSVERSE_ISOTROPIC
      else mt)"

text \<open>One call \<^verbatim>\<open>self.addlayer(H=..., vsv=self.VsArr[i], ..., zmin=z)\<close> of a branch: every
  argument is the entry \<open>i\<close> of its column, the one of the perturbed column multiplied by
  \<^verbatim>\<open>(1.+dm)\<close>. In the branch for \<^verbatim>\<open>vsh\<close> the call for the top boundary (lines 625 to 628)
  also multiplies \<^verbatim>\<open>vph\<close>. The isotropic calls leave \<^verbatim>\<open>vsh\<close>, \<^verbatim>\<open>vph\<close> and \<^verbatim>\<open>vpf\<close> out.\<close>

definition boundary_layer ::
  "modeltype \<Rightarrow> attr \<Rightarrow> bool \<Rightarrow> real \<Rightarrow> real \<Rightarrow> int \<Rightarrow> real \<Rightarrow> pystate \<Rightarrow> result" where
  "boundary_layer variant col is_top dm H i z s =
     (let slf = self_of s;
          arg = (\<lambda>a. ebind (rd slf a) (\<lambda>x. ebind (item x i) (\<lambda>v.
                   Inr (if a = col \<or> (is_top \<and> col = VshArr \<and> a = VphArr) then v * (1 + dm) else v))))
      in case variant of
           ISOTROPIC \<Rightarrow>
             with_value (arg VsArr) s (\<lambda>vsv.
             with_value (arg VpArr) s (\<lambda>vpv.
             with_value (arg rhoArr) s (\<lambda>rho.
             with_value (arg QpArr) s (\<lambda>Qp.
             with_value (arg QsArr) s (\<lambda>Qs.
             with_value (arg etapArr) s (\<lambda>etap.
             with_value (arg etasArr) s (\<lambda>etas.
             with_value (arg frefpArr) s (\<lambda>frefp.
             with_value (arg frefsArr) s (\<lambda>frefs.
               addlayer H vsv None (Some vpv) None None (Some rho)
                 Qp Qs etap etas frefp frefs z s)))))))))
         | TRANSVERSE_ISOTROPIC \<Rightarrow>
             with_value (arg VsvArr) s (\<lambda>vsv.
             with_value (arg VpvArr) s (\<lambda>vpv.
             with_value (arg VshArr) s (\<lambda>vsh.
             with_value (arg VphArr) s (\<lambda>vph.
             with_value (arg VpfArr) s (\<lambda>vpf.
             with_value (arg rhoArr) s (\<lambda>rho.
             with_value (arg QpArr) s (\<lambda>Qp.
             with_value (arg QsArr) s (\<lambda>Qs.
             with_value (arg etapArr) s (\<lambda>etap.
             with_value (arg etasArr) s (\<lambda>etas.
             with_value (arg frefpArr) s (\<lambda>frefp.
             with_value (arg frefsArr) s (\<lambda>frefs.
               addlayer H vsv (Some vsh) (Some vpv) (Some vph) (Some vpf) (Some rho)
                 Qp Qs etap etas frefp frefs z s)))))))))))))"

text \<open>\<^verbatim>\<open>perturb(dm, zmin, zmax, datatype)\<close>: the checks of lines 527 to 532, the locals, the
  multiplication in place over the layers inside the range, then the call for the bottom
  boundary and the call for the top boundary, each reading the model as it is by then.\<close>

definition perturb :: "real \<Rightarrow> real \<Rightarrow> real \<Rightarrow> string \<Rightarrow> pystate \<Rightarrow> result" where
  "perturb dm zmin zmax dtype s =
     (if dm > 1 \<or> dm < - 1 then Inl (ValueError msg_range, s)
      else if (dtype = ''vs'' \<or> dtype = ''vp'') \<and> modeltype s \<noteq> ISOTROPIC
      then Inl (ValueError msg_not_isotropic, s)
      else if (dtype = ''vsv'' \<or> dtype = ''vpv'' \<or> dtype = ''vsh'' \<or> dtype = ''vph'' \<or> dtype = ''vpf'')
              \<and> modeltype s \<noteq> TRANSVERSE_ISOTROPIC
      then Inl (ValueError msg_not_TI, s)
      else
        with_value (perturb_locals zmin zmax (self_of s)) s (\<lambda>(tp, bt, index).
          case target_column dtype of
            None \<Rightarrow> Inr s
          | Some col \<Rightarrow>
              let variant = branch_variant dtype (modeltype s) in
              then_do (scale_inplace col index (1 + dm) s)
              (\<lambda>s1. then_do
                 (case bt of
                    None \<Rightarrow> Inr s1
                  | Some (Hb, indexb, z2) \<Rightarrow>
                      if Hb \<noteq> 0 then boundary_layer variant col False dm Hb indexb z2 s1
                      else Inr s1)
              (\<lambda>s2.
                 (case tp of
                    None \<Rightarrow> Inr s2
                  | Some (Ht, indext, z1) \<Rightarrow>
                      if Ht \<noteq> 0 then boundary_layer variant col True dm Ht indext z1 s2
                      else Inr s2)))))"


section \<open>The column-wise constructors\<close>

definition msg_modelindex :: string where
  "msg_modelindex =
     ''Error in model index, currently only support 1 : ISOTROPIC and 2: TRANSVERSE ISOTROPIC''"

text \<open>\<^verbatim>\<open>Model1d.__init__\<close>: the array arguments are references to the caller's arrays in the
  heap \<open>h\<close>, whose next unused reference is \<open>f\<close>. The instance stores the references it is
  given; only \<^verbatim>\<open>VpfArr\<close> and \<^verbatim>\<open>DepthArr\<close> are new arrays. The strings \<^verbatim>\<open>modelver\<close>,
  \<^verbatim>\<open>modelname\<close> and \<^verbatim>\<open>modelunit\<close> play no part in the columns and are left out.\<close>

definition Model1d_init ::
  "int \<Rightarrow> int \<Rightarrow> int \<Rightarrow> int \<Rightarrow> ref \<Rightarrow> ref \<Rightarrow> ref \<Rightarrow> ref \<Rightarrow> ref \<Rightarrow> ref \<Rightarrow> ref \<Rightarrow> ref \<Rightarrow> ref \<Rightarrow> ref
     \<Rightarrow> (ref \<Rightarrow> ndarray) \<Rightarrow> ref \<Rightarrow> error + pystate" where
  "Model1d_init modelindex earthindex boundaryindex Vindex
       rH rVs rVp rrho rQp rQs retap retas rfrefp rfrefs h f =
     (if modelindex \<noteq> 1 \<and> modelindex \<noteq> 2 then Inl (ValueError msg_modelindex)
      else if earthindex \<noteq> 1 \<and> earthindex \<noteq> 2 then Inl KeyError
      else if boundaryindex \<noteq> 1 \<and> boundaryindex \<noteq> 2 \<and> boundaryindex \<noteq> 3 then Inl KeyError
      else if Vindex \<noteq> 1 \<and> Vindex \<noteq> 2 then Inl KeyError
      else
        let mt = (if modelindex = 1 then ISOTROPIC else TRANSVERSE_ISOTROPIC);
            s0 = \<lparr>modeltype = mt, attrs = (\<lambda>a. None), heap = h, fresh = f\<rparr>;
            s1 = setref HArr rH s0;
            s2 = (case mt of
                    ISOTROPIC \<Rightarrow> setref VpArr rVp (setref VsArr rVs s1)
                  | TRANSVERSE_ISOTROPIC \<Rightarrow>
                      alloc VpfArr
                        (if length (h rVs) = 0 \<or> length (h rVp) = 0 \<or> length (h rVs) \<noteq> length (h rVp)
                         then []
                         else map2 (\<lambda>p v. np_sqrt (p ^ 2 - 2 * v ^ 2)) (h rVp) (h rVs))
                        (setref VphArr rVp (setref VshArr rVs
                        (setref VpvArr rVp (setref VsvArr rVs s1)))));
            s3 = setref frefsArr rfrefs (setref frefpArr rfrefp (setref etasArr retas
                 (setref etapArr retap (setref QsArr rQs (setref QpArr rQp (setref rhoArr rrho s2))))))
        in Inr (alloc DepthArr (np_cumsum (heap s3 rH)) s3))"



section \<open>The layer-stack invariant\<close>

definition all_attrs :: "attr list" where
  "all_attrs = [HArr, VsArr, VpArr, VsvArr, VpvArr, VshArr, VphArr, VpfArr,
                rhoArr, QpArr, QsArr, etapArr, etasArr, frefpArr, frefsArr, DepthArr]"

text \<open>Every reference held by the instance is allocated.\<close>

definition heap_ok :: "pystate \<Rightarrow> bool" where
  "heap_ok s = (\<forall>a \<in> set all_attrs. case attrs s a of None \<Rightarrow> True | Some r \<Rightarrow> r < fresh s)"

text \<open>No other attribute refers to the array of attribute \<open>a\<close>.\<close>

definition unshared :: "pystate \<Rightarrow> attr \<Rightarrow> bool" where
  "unshared s a = (\<forall>b \<in> set all_attrs. b \<noteq> a \<longrightarrow> attrs s b \<noteq> attrs s a)"

text \<open>The contents of a column (empty when the attribute is missing), and the bottom of
  the last layer.\<close>

definition col :: "pystate \<Rightarrow> attr \<Rightarrow> ndarray" where
  "col s a = (case self_of s a of None \<Rightarrow> [] | Some v \<Rightarrow> v)"

definition totalDepth :: "pystate \<Rightarrow> real" where
  "totalDepth s = (if col s DepthArr = [] then 0 else last (col s DepthArr))"

text \<open>The invariant in the words of the specification: every column of the model type
  has the length of the thickness column, every thickness is positive, and the depth
  array is strictly increasing with \<open>depth[i] - depth[i-1] = thickness[i]\<close>, where the
  depth above the first layer is 0.\<close>

definition layer_stack_inv :: "pystate \<Rightarrow> bool" where
  "layer_stack_inv s \<longleftrightarrow>
     (\<forall>a \<in> set (columns (modeltype s) @ [DepthArr]).
        self_of s a \<noteq> None \<and> length (col s a) = length (col s HArr))
     \<and> (\<forall>h \<in> set (col s HArr). 0 < h)
     \<and> sorted_wrt (\<lambda>x y. x < y) (col s DepthArr)
     \<and> (\<forall>i < length (col s HArr).
          col s DepthArr ! i - (if i = 0 then 0 else col s DepthArr ! (i - 1)) = col s HArr ! i)"

text \<open>The same for the model as it is stored: the depth array is the running sum of the
  thicknesses, the references are allocated, and the arrays of \<^verbatim>\<open>HArr\<close> and \<^verbatim>\<open>DepthArr\<close>
  are not shared with another attribute.\<close>

definition aligned :: "pystate \<Rightarrow> bool" where
  "aligned s \<longleftrightarrow>
     (\<forall>a \<in> set (columns (modeltype s) @ [DepthArr]).
        self_of s a \<noteq> None \<and> length (col s a) = length (col s HArr))"

definition model_ok :: "pystate \<Rightarrow> bool" where
  "model_ok s \<longleftrightarrow>
     heap_ok s \<and> unshared s HArr \<and> unshared s DepthArr \<and> aligned s
     \<and> (\<forall>h \<in> set (col s HArr). 0 < h)
     \<and> col s DepthArr = np_cumsum (col s HArr)"


section \<open>What the columns hold after \<^verbatim>\<open>addlayer\<close>\<close>

text \<open>The top depths of the layers whose thicknesses are \<open>xs\<close>, below depth \<open>acc\<close>.\<close>

fun tops_from :: "real \<Rightarrow> real list \<Rightarrow> real list" where
  "tops_from acc [] = []"
| "tops_from acc (x # xs) = acc # tops_from (acc + x) xs"

text \<open>State \<open>s\<close> holds \<open>F a\<close> in every column \<open>a\<close> of its model type and the running sum of
  the thicknesses in \<^verbatim>\<open>DepthArr\<close>; \<open>post_ok\<close> adds what a call that returned normally
  leaves true of the heap.\<close>

definition columns_are :: "pystate \<Rightarrow> (attr \<Rightarrow> ndarray) \<Rightarrow> bool" where
  "columns_are s F \<longleftrightarrow>
     (\<forall>a \<in> set (columns (modeltype s)). self_of s a = Some (F a))
     \<and> self_of s DepthArr = Some (np_cumsum (F HArr))"

definition post_ok :: "pystate \<Rightarrow> pystate \<Rightarrow> (attr \<Rightarrow> ndarray) \<Rightarrow> bool" where
  "post_ok s s' F \<longleftrightarrow>
     modeltype s' = modeltype s \<and> heap_ok s' \<and> unshared s' HArr \<and> unshared s' DepthArr
     \<and> columns_are s' F"

text \<open>Case 1: the new value after the old column.\<close>

definition appended :: "(attr \<Rightarrow> real) \<Rightarrow> pystate \<Rightarrow> attr \<Rightarrow> ndarray" where
  "appended new s a = col s a @ [new a]"

text \<open>Case 2: the new value, then the entries of the layers whose bottom is below \<open>H\<close>,
  the first thickness among them cut to what lies below \<open>H\<close>.\<close>

definition prepended :: "real \<Rightarrow> (attr \<Rightarrow> real) \<Rightarrow> pystate \<Rightarrow> attr \<Rightarrow> ndarray" where
  "prepended H new s a =
     (let D = col s DepthArr; m = map (\<lambda>d. d > H) D; kept = masked (col s a) m
      in new a # (if a = HArr then kept[0 := hd (masked D m) - H] else kept))"





section \<open>Example instances\<close>

text \<open>An instance of the given model type whose attributes refer to pairwise distinct
  arrays with the given contents, as \<^verbatim>\<open>read\<close> builds them.\<close>

fun place :: "(attr \<times> ndarray) list \<Rightarrow> pystate \<Rightarrow> pystate" where
  "place [] s = s"
| "place ((a, v) # cs) s = place cs (alloc a v s)"

definition instance_of :: "modeltype \<Rightarrow> (attr \<times> ndarray) list \<Rightarrow> pystate" where
  "instance_of mt cs =
     place cs \<lparr>modeltype = mt, attrs = (\<lambda>a. None), heap = (\<lambda>r. []), fresh = 0\<rparr>"

text \<open>One isotropic layer from depth 0 to 10; three isotropic layers of thickness 10; two
  transverse-isotropic layers of thickness 10.\<close>

definition example_iso :: pystate where
  "example_iso = instance_of ISOTROPIC
     [(HArr, [10]), (VpArr, [6]), (VsArr, [3]), (rhoArr, [2]), (QpArr, [310]), (QsArr, [150]),
      (etapArr, [0]), (etasArr, [0]), (frefpArr, [1]), (frefsArr, [1]), (DepthArr, [10])]"

definition example_iso3 :: pystate where
  "example_iso3 = instance_of ISOTROPIC
     [(HArr, [10, 10, 10]), (VpArr, [6, 7, 8]), (VsArr, [3, 4, 5]), (rhoArr, [2, 5 / 2, 3]),
      (QpArr, [310, 311, 312]), (QsArr, [150, 151, 152]), (etapArr, [0, 0, 0]),
      (etasArr, [0, 0, 0]), (frefpArr, [1, 1, 1]), (frefsArr, [1, 1, 1]),
      (DepthArr, [10, 20, 30])]"

definition example_ti :: pystate where
  "example_ti = instance_of TRANSVERSE_ISOTROPIC
     [(HArr, [10, 10]), (VpvArr, [6, 7]), (VsvArr, [3, 4]), (VphArr, [13 / 2, 15 / 2]),
      (VshArr, [7 / 2, 9 / 2]), (VpfArr, [1, 2]), (rhoArr, [2, 5 / 2]), (QpArr, [310, 311]),
      (QsArr, [150, 151]), (etapArr, [0, 0]), (etasArr, [0, 0]), (frefpArr, [1, 1]),
      (frefsArr, [1, 1]), (DepthArr, [10, 20])]"

text \<open>An isotropic model with no layers: every column is an empty array.\<close>

definition example_empty :: pystate where
  "example_empty = instance_of ISOTROPIC
     [(HArr, []), (VpArr, []), (VsArr, []), (rhoArr, []), (QpArr, []), (QsArr, []),
      (etapArr, []), (etasArr, []), (frefpArr, []), (frefsArr, []), (DepthArr, [])]"

text \<open>The arrays a caller passes to the constructor, one layer of thickness 10: reference
  0 holds the thicknesses, 1 the S velocities, 2 the P velocities, 3 to 9 the other
  columns.\<close>

definition caller_heap :: "ref \<Rightarrow> ndarray" where
  "caller_heap r =
     (if r = 0 then [10] else if r = 1 then [2] else if r = 2 then [3] else if r = 3 then [5 / 2]
      else if r = 4 then [310] else if r = 5 then [150] else if r = 6 then [0]
      else if r = 7 then [0] else if r = 8 then [1] else if r = 9 then [1] else [])"

section \<open>Basic facts about the heap\<close>

lemma all_attrs_UNIV: "a \<in> set all_attrs"
  by (cases a) (simp_all add: all_attrs_def)

lemma heap_ok_iff: "heap_ok s \<longleftrightarrow> (\<forall>a r. attrs s a = Some r \<longrightarrow> r < fresh s)"
  unfolding heap_ok_def using all_attrs_UNIV by (auto split: option.splits)

lemma unshared_iff: "unshared s a \<longleftrightarrow> (\<forall>b. b \<noteq> a \<longrightarrow> attrs s b \<noteq> attrs s a)"
  unfolding unshared_def using all_attrs_UNIV by auto

lemma self_of_alloc: "heap_ok s \<Longrightarrow> self_of (alloc a v s) = (self_of s)(a \<mapsto> v)"
proof (rule ext)
  fix b assume ok: "heap_ok s"
  show "self_of (alloc a v s) b = ((self_of s)(a \<mapsto> v)) b"
  proof (cases "attrs s b")
    case None then show ?thesis by (simp add: self_of_def alloc_def)
  next
    case (Some r)
    with ok have "r \<noteq> fresh s" by (auto simp: heap_ok_iff)
    with Some show ?thesis by (simp add: self_of_def alloc_def)
  qed
qed

lemma heap_ok_alloc: "heap_ok s \<Longrightarrow> heap_ok (alloc a v s)"
  by (auto simp: alloc_def heap_ok_iff less_Suc_eq)

lemma modeltype_alloc: "modeltype (alloc a v s) = modeltype s"
  by (simp add: alloc_def)

lemma attrs_alloc: "attrs (alloc a v s) = (attrs s)(a \<mapsto> fresh s)"
  by (simp add: alloc_def)

lemma fresh_alloc: "fresh (alloc a v s) = Suc (fresh s)"
  by (simp add: alloc_def)

lemma heap_alloc: "heap (alloc a v s) = (heap s)(fresh s := v)"
  by (simp add: alloc_def)

lemma heap_ok_empty: "heap_ok \<lparr>modeltype = mt, attrs = (\<lambda>a. None), heap = h, fresh = f\<rparr>"
  by (simp add: heap_ok_def)

text \<open>The equations that run \<^verbatim>\<open>addlayer\<close> and \<^verbatim>\<open>perturb\<close> on a given state.\<close>

lemmas exec =
  addlayer_def Let_def rd_def ebind_def item_last_def addlayer_interior_def interior_locals_def
  select_columns_def first_entries_def last_entries_def
  columns_def velocity_columns_def common_columns_def broadcast_def np_mask_def masked_def
  item0_def then_do_def with_value_def assign_def update_depth_def np_cumsum_def layer_def
  addlayer_append_def addlayer_prepend_def append_source_def item_def scale_masked_def
  self_of_alloc heap_ok_alloc modeltype_alloc

lemmas concrete =
  instance_of_def attrs_alloc fresh_alloc heap_alloc heap_ok_empty self_of_def
  perturb_def perturb_locals_def target_column_def branch_variant_def boundary_layer_def
  scale_inplace_def setitem0_def


section \<open>Splitting a single layer\<close>

text \<open>
  C2. An isotropic model of one layer of thickness 10 (depth 0 to 10), with any values in
  its parameter columns: \<^verbatim>\<open>addlayer\<close> with \<open>H = 2\<close> and \<open>zmin = 5\<close> returns normally and
  leaves exactly three layers, of thickness 5, 2 and 3 with bottom depths 5, 7 and 10. The
  first and the third carry the original value in every column, the second carries the
  new layer's arguments (the Brocher defaults where \<^verbatim>\<open>vpv\<close> or \<^verbatim>\<open>rho\<close> is left out). The
  total depth is still 10.
\<close>

theorem addlayer_splits_single_layer:
  assumes "modeltype s = ISOTROPIC" "heap_ok s"
    and "self_of s HArr = Some [10]" "self_of s DepthArr = Some [10]"
    and "self_of s VpArr = Some [vp0]" "self_of s VsArr = Some [vs0]"
    and "self_of s rhoArr = Some [rho0]" "self_of s QpArr = Some [qp0]"
    and "self_of s QsArr = Some [qs0]" "self_of s etapArr = Some [ep0]"
    and "self_of s etasArr = Some [es0]" "self_of s frefpArr = Some [fp0]"
    and "self_of s frefsArr = Some [fs0]"
  shows "\<exists>s'. addlayer 2 vsv vsh vpv vph vpf rho Qp Qs etap etas frefp frefs 5 s = Inr s'
     \<and> modeltype s' = ISOTROPIC
     \<and> self_of s' HArr = Some [5, 2, 3]
     \<and> self_of s' DepthArr = Some [5, 7, 10]
     \<and> totalDepth s' = 10
     \<and> self_of s' VpArr = Some [vp0, (case vpv of None \<Rightarrow> brocher_vp vsv | Some v \<Rightarrow> v), vp0]
     \<and> self_of s' VsArr = Some [vs0, vsv, vs0]
     \<and> self_of s' rhoArr =
          Some [rho0,
                (case rho of
                   None \<Rightarrow> brocher_rho (case vpv of None \<Rightarrow> brocher_vp vsv | Some v \<Rightarrow> v)
                 | Some v \<Rightarrow> v),
                rho0]
     \<and> self_of s' QpArr = Some [qp0, Qp, qp0]
     \<and> self_of s' QsArr = Some [qs0, Qs, qs0]
     \<and> self_of s' etapArr = Some [ep0, etap, ep0]
     \<and> self_of s' etasArr = Some [es0, etas, es0]
     \<and> self_of s' frefpArr = Some [fp0, frefp, fp0]
     \<and> self_of s' frefsArr = Some [fs0, frefs, fs0]"
  using assms by (simp add: exec totalDepth_def col_def)

theorem addlayer_splits_single_layer_witness:
  "modeltype example_iso = ISOTROPIC \<and> heap_ok example_iso
   \<and> self_of example_iso HArr = Some [10] \<and> self_of example_iso DepthArr = Some [10]
   \<and> self_of example_iso VpArr = Some [6] \<and> self_of example_iso VsArr = Some [3]
   \<and> (\<exists>s'. addlayer 2 4 None (Some 7) None None (Some (5 / 2)) 300 100 0 0 1 1 5 example_iso = Inr s'
         \<and> modeltype s' = ISOTROPIC
         \<and> self_of s' HArr = Some [5, 2, 3] \<and> self_of s' DepthArr = Some [5, 7, 10]
         \<and> totalDepth s' = 10
         \<and> self_of s' VpArr = Some [6, 7, 6] \<and> self_of s' VsArr = Some [3, 4, 3]
         \<and> self_of s' rhoArr = Some [2, 5 / 2, 2]
         \<and> self_of s' QpArr = Some [310, 300, 310] \<and> self_of s' QsArr = Some [150, 100, 150]
         \<and> self_of s' etapArr = Some [0, 0, 0] \<and> self_of s' etasArr = Some [0, 0, 0]
         \<and> self_of s' frefpArr = Some [1, 1, 1] \<and> self_of s' frefsArr = Some [1, 1, 1])"
proof -
  have m: "modeltype example_iso = ISOTROPIC"
    by (simp add: example_iso_def instance_of_def modeltype_alloc)
  have ok: "heap_ok example_iso"
    by (simp add: example_iso_def instance_of_def heap_ok_alloc heap_ok_empty)
  have v: "self_of example_iso HArr = Some [10]" "self_of example_iso DepthArr = Some [10]"
    "self_of example_iso VpArr = Some [6]" "self_of example_iso VsArr = Some [3]"
    "self_of example_iso rhoArr = Some [2]" "self_of example_iso QpArr = Some [310]"
    "self_of example_iso QsArr = Some [150]" "self_of example_iso etapArr = Some [0]"
    "self_of example_iso etasArr = Some [0]" "self_of example_iso frefpArr = Some [1]"
    "self_of example_iso frefsArr = Some [1]"
    by (simp_all add: example_iso_def instance_of_def self_of_alloc heap_ok_alloc heap_ok_empty)
  from addlayer_splits_single_layer [OF m ok v, of 4 None "Some 7" None None "Some (5 / 2)" 300 100 0 0 1 1]
  show ?thesis using m ok v by simp
qed

section \<open>Parameter names and fractions that \<^verbatim>\<open>perturb\<close> rejects\<close>





section \<open>Behaviour at given inputs\<close>

text \<open>
  C4. Two transverse-isotropic layers of thickness 10; \<^verbatim>\<open>perturb(0.1, zmin=5, zmax=20,
  datatype='vsh')\<close>. The range starts inside the first layer, so a boundary layer from
  depth 5 to 10 is inserted with the first layer's values. Its \<^verbatim>\<open>vsh\<close> is multiplied by
  1.1 (3.5 becomes 3.85), and so is its \<^verbatim>\<open>vph\<close> (6.5 becomes 7.15), which the claim
  says stays as it was.
\<close>

theorem perturb_vsh_top_boundary_scales_vph:
  "case perturb (1 / 10) 5 20 ''vsh'' example_ti of
     Inl err \<Rightarrow> False
   | Inr s' \<Rightarrow>
       self_of example_ti VshArr = Some [7 / 2, 9 / 2]
       \<and> self_of example_ti VphArr = Some [13 / 2, 15 / 2]
       \<and> self_of s' HArr = Some [5, 5, 10]
       \<and> self_of s' VshArr = Some [7 / 2, 77 / 20, 99 / 20]
       \<and> self_of s' VphArr = Some [13 / 2, 143 / 20, 15 / 2]
       \<and> self_of s' VpvArr = Some [6, 6, 7]"
  by (simp add: example_ti_def exec concrete)

text \<open>
  C3. Two transverse-isotropic layers with total depth 20; \<^verbatim>\<open>addlayer\<close> with
  \<open>zmin = 9999\<close>. The call raises \<^verbatim>\<open>AttributeError\<close> at line 188, where it reads
  \<^verbatim>\<open>self.VpArr\<close>; by then \<^verbatim>\<open>HArr\<close>, \<^verbatim>\<open>VpvArr\<close> and \<^verbatim>\<open>VsvArr\<close> have the new entry and
  the other columns do not.
\<close>

theorem addlayer_append_fails_on_transverse_isotropic:
  "case addlayer 2 4 (Some 4) (Some 7) (Some 7) (Some 0) (Some (5 / 2)) 300 100 0 0 1 1 9999
          example_ti of
     Inl (err, s') \<Rightarrow>
       err = AttributeError
       \<and> totalDepth example_ti = 20
       \<and> self_of s' HArr = Some [10, 10, 2]
       \<and> self_of s' VpvArr = Some [6, 7, 7]
       \<and> self_of s' VsvArr = Some [3, 4, 4]
       \<and> self_of s' VphArr = Some [13 / 2, 15 / 2]
       \<and> self_of s' rhoArr = Some [2, 5 / 2]
       \<and> self_of s' DepthArr = Some [10, 20]
   | Inr s' \<Rightarrow> False"
  by (simp add: example_ti_def exec concrete totalDepth_def col_def)

text \<open>
  C6. A transverse-isotropic model of one layer built by \<^verbatim>\<open>Model1d(modelindex=2, ...)\<close>
  with \<^verbatim>\<open>VsArr = [2]\<close> and \<^verbatim>\<open>VpArr = [3]\<close>, then \<^verbatim>\<open>perturb(0.1, zmin=0, zmax=10,
  datatype='vsv')\<close>. The layer lies inside the range and its \<^verbatim>\<open>vsv\<close> becomes 2.2; its
  \<^verbatim>\<open>vsh\<close> becomes 2.2 as well, because the constructor stored one array under both
  names.
\<close>

theorem perturb_vsv_changes_vsh_after_constructor:
  "case Model1d_init 2 1 1 1 0 1 2 3 4 5 6 7 8 9 caller_heap 10 of
     Inl err \<Rightarrow> False
   | Inr s \<Rightarrow>
       (case perturb (1 / 10) 0 10 ''vsv'' s of
          Inl err \<Rightarrow> False
        | Inr s' \<Rightarrow>
            self_of s HArr = Some [10] \<and> self_of s DepthArr = Some [10]
            \<and> self_of s VsvArr = Some [2] \<and> self_of s VshArr = Some [2]
            \<and> self_of s' VsvArr = Some [11 / 5] \<and> self_of s' VshArr = Some [11 / 5])"
  by (simp add: Model1d_init_def setref_def caller_heap_def alloc_def exec concrete)


section \<open>Blocks of assignments\<close>

lemma for_each_assign:
  assumes "heap_ok s" "distinct (map key xs)"
    and "\<forall>x \<in> set xs. \<forall>slf. (\<forall>b. b \<notin> key ` set xs \<or> b = key x \<longrightarrow> slf b = self_of s b)
            \<longrightarrow> rhs x slf = Inr (g x)"
  shows "\<exists>s'. for_each xs (\<lambda>x. assign (key x) (rhs x)) s = Inr s'
      \<and> heap_ok s' \<and> modeltype s' = modeltype s
      \<and> (\<forall>x \<in> set xs. self_of s' (key x) = Some (g x))
      \<and> (\<forall>b. b \<notin> key ` set xs \<longrightarrow> self_of s' b = self_of s b \<and> attrs s' b = attrs s b)
      \<and> (\<forall>x \<in> set xs. \<exists>r. attrs s' (key x) = Some r \<and> fresh s \<le> r)
      \<and> inj_on (attrs s') (key ` set xs)
      \<and> fresh s \<le> fresh s'"
  using assms
proof (induction xs arbitrary: s)
  case Nil
  then show ?case by simp
next
  case (Cons x xs)
  let ?s1 = "alloc (key x) (g x) s"
  have kx: "key x \<notin> key ` set xs" and dist: "distinct (map key xs)"
    using Cons.prems(2) by auto
  have r0: "rhs x (self_of s) = Inr (g x)"
    using Cons.prems(3) by simp
  have ok1: "heap_ok ?s1" using Cons.prems(1) by (rule heap_ok_alloc)
  have v1: "self_of ?s1 = (self_of s)(key x \<mapsto> g x)"
    using Cons.prems(1) by (rule self_of_alloc)
  have step: "\<forall>y \<in> set xs. \<forall>slf. (\<forall>b. b \<notin> key ` set xs \<or> b = key y \<longrightarrow> slf b = self_of ?s1 b)
            \<longrightarrow> rhs y slf = Inr (g y)"
  proof (intro ballI allI impI)
    fix y slf assume y: "y \<in> set xs"
      and agree: "\<forall>b. b \<notin> key ` set xs \<or> b = key y \<longrightarrow> slf b = self_of ?s1 b"
    have ky: "key y \<noteq> key x" using y kx by (metis imageI)
    have "\<forall>b. b \<notin> key ` set (x # xs) \<or> b = key y \<longrightarrow> slf b = self_of s b"
    proof (intro allI impI)
      fix b assume b: "b \<notin> key ` set (x # xs) \<or> b = key y"
      then have "b \<noteq> key x" using ky by auto
      moreover have "b \<notin> key ` set xs \<or> b = key y" using b by auto
      ultimately show "slf b = self_of s b" using agree v1 by simp
    qed
    moreover have "y \<in> set (x # xs)" using y by simp
    ultimately show "rhs y slf = Inr (g y)" using Cons.prems(3) by blast
  qed
  from Cons.IH[OF ok1 dist step] obtain s' where
    run: "for_each xs (\<lambda>x. assign (key x) (rhs x)) ?s1 = Inr s'"
    and ok': "heap_ok s'" and mt: "modeltype s' = modeltype ?s1"
    and vals: "\<forall>y \<in> set xs. self_of s' (key y) = Some (g y)"
    and rest: "\<forall>b. b \<notin> key ` set xs \<longrightarrow> self_of s' b = self_of ?s1 b \<and> attrs s' b = attrs ?s1 b"
    and refs: "\<forall>y \<in> set xs. \<exists>r. attrs s' (key y) = Some r \<and> fresh ?s1 \<le> r"
    and inj: "inj_on (attrs s') (key ` set xs)"
    and fr: "fresh ?s1 \<le> fresh s'"
    by blast
  have run': "for_each (x # xs) (\<lambda>x. assign (key x) (rhs x)) s = Inr s'"
    using r0 run by (simp add: assign_def then_do_def)
  have ax: "attrs s' (key x) = Some (fresh s)"
    using rest kx by (simp add: attrs_alloc)
  have vx: "self_of s' (key x) = Some (g x)"
    using rest kx v1 by simp
  have inj': "inj_on (attrs s') (key ` set (x # xs))"
  proof -
    have "attrs s' (key x) \<notin> attrs s' ` (key ` set xs)"
    proof
      assume "attrs s' (key x) \<in> attrs s' ` (key ` set xs)"
      then obtain y where y: "y \<in> set xs" and e: "attrs s' (key x) = attrs s' (key y)" by auto
      from refs y obtain r where "attrs s' (key y) = Some r" "fresh ?s1 \<le> r" by blast
      with e ax show False by (simp add: fresh_alloc)
    qed
    with inj show ?thesis by auto
  qed
  show ?case
  proof (intro exI conjI)
    show "for_each (x # xs) (\<lambda>x. assign (key x) (rhs x)) s = Inr s'" by (rule run')
    show "heap_ok s'" by (rule ok')
    show "modeltype s' = modeltype s" using mt by (simp add: modeltype_alloc)
    show "\<forall>y\<in>set (x # xs). self_of s' (key y) = Some (g y)" using vals vx by simp
    show "\<forall>b. b \<notin> key ` set (x # xs) \<longrightarrow> self_of s' b = self_of s b \<and> attrs s' b = attrs s b"
      using rest v1 by (auto simp: attrs_alloc)
    show "\<forall>y\<in>set (x # xs). \<exists>r. attrs s' (key y) = Some r \<and> fresh s \<le> r"
    proof
      fix y assume "y \<in> set (x # xs)"
      then consider "y = x" | "y \<in> set xs" by auto
      then show "\<exists>r. attrs s' (key y) = Some r \<and> fresh s \<le> r"
      proof cases
        case 1 then show ?thesis using ax by simp
      next
        case 2
        with refs obtain r where "attrs s' (key y) = Some r" "fresh ?s1 \<le> r" by blast
        then show ?thesis by (auto simp: fresh_alloc)
      qed
    qed
    show "inj_on (attrs s') (key ` set (x # xs))" by (rule inj')
    show "fresh s \<le> fresh s'" using fr by (simp add: fresh_alloc)
  qed
qed

text \<open>The same, with what the later proofs need: the assigned attributes hold the new
  arrays, which nothing else refers to; the other attributes are as before.\<close>

lemma block_assign:
  assumes ok: "heap_ok s" and dist: "distinct (map key xs)"
    and rhs: "\<forall>x \<in> set xs. \<forall>slf. (\<forall>b. b \<notin> key ` set xs \<or> b = key x \<longrightarrow> slf b = self_of s b)
            \<longrightarrow> rhs x slf = Inr (g x)"
  shows "\<exists>s'. for_each xs (\<lambda>x. assign (key x) (rhs x)) s = Inr s'
      \<and> heap_ok s' \<and> modeltype s' = modeltype s
      \<and> (\<forall>x \<in> set xs. self_of s' (key x) = Some (g x) \<and> unshared s' (key x))
      \<and> (\<forall>b. b \<notin> key ` set xs \<longrightarrow> self_of s' b = self_of s b)"
proof -
  from for_each_assign[of s key xs rhs g] ok dist rhs obtain s' where
    run: "for_each xs (\<lambda>x. assign (key x) (rhs x)) s = Inr s'"
    and ok': "heap_ok s'" and mt: "modeltype s' = modeltype s"
    and vals: "\<forall>y \<in> set xs. self_of s' (key y) = Some (g y)"
    and rest: "\<forall>b. b \<notin> key ` set xs \<longrightarrow> self_of s' b = self_of s b \<and> attrs s' b = attrs s b"
    and refs: "\<forall>y \<in> set xs. \<exists>r. attrs s' (key y) = Some r \<and> fresh s \<le> r"
    and inj: "inj_on (attrs s') (key ` set xs)"
    by blast
  have un: "\<forall>x \<in> set xs. unshared s' (key x)"
    unfolding unshared_iff
  proof (intro ballI allI impI)
    fix x b assume x: "x \<in> set xs" and b: "b \<noteq> key x"
    from refs x obtain r where r: "attrs s' (key x) = Some r" "fresh s \<le> r" by blast
    show "attrs s' b \<noteq> attrs s' (key x)"
    proof (cases "b \<in> key ` set xs")
      case True
      with inj x b show ?thesis by (auto simp: inj_on_def)
    next
      case False
      with rest have e: "attrs s' b = attrs s b" by simp
      show ?thesis
      proof (cases "attrs s b")
        case None with e r show ?thesis by simp
      next
        case (Some r0)
        with ok have "r0 < fresh s" by (auto simp: heap_ok_iff)
        with Some e r show ?thesis by simp
      qed
    qed
  qed
  have "heap_ok s' \<and> modeltype s' = modeltype s
      \<and> (\<forall>x \<in> set xs. self_of s' (key x) = Some (g x) \<and> unshared s' (key x))
      \<and> (\<forall>b. b \<notin> key ` set xs \<longrightarrow> self_of s' b = self_of s b)"
    using ok' mt vals rest un by simp
  with run show ?thesis by (intro exI[of _ s']) simp
qed

lemma update_depth_ok:
  assumes ok: "heap_ok s" and h: "self_of s HArr = Some hs"
  shows "\<exists>s'. update_depth s = Inr s' \<and> heap_ok s' \<and> modeltype s' = modeltype s
      \<and> self_of s' = (self_of s)(DepthArr \<mapsto> np_cumsum hs)
      \<and> unshared s' DepthArr
      \<and> (\<forall>a. a \<noteq> DepthArr \<longrightarrow> unshared s a \<longrightarrow> unshared s' a)"
proof -
  let ?s' = "alloc DepthArr (np_cumsum hs) s"
  have run: "update_depth s = Inr ?s'"
    using h by (simp add: update_depth_def assign_def rd_def ebind_def)
  have nf: "attrs s b \<noteq> Some (fresh s)" for b
  proof
    assume "attrs s b = Some (fresh s)"
    with ok have "fresh s < fresh s" unfolding heap_ok_iff by blast
    then show False by simp
  qed
  have un: "unshared ?s' DepthArr"
    unfolding unshared_iff using nf by (simp add: attrs_alloc)
  have keep: "unshared ?s' a" if a: "a \<noteq> DepthArr" and u: "unshared s a" for a
    unfolding unshared_iff
  proof (intro allI impI)
    fix b assume b: "b \<noteq> a"
    show "attrs ?s' b \<noteq> attrs ?s' a"
    proof (cases "b = DepthArr")
      case True
      then show ?thesis using a nf[of a] by (simp add: attrs_alloc)
    next
      case False
      then show ?thesis using a b u by (simp add: attrs_alloc unshared_iff)
    qed
  qed
  show ?thesis
    using run heap_ok_alloc[OF ok] self_of_alloc[OF ok] un keep
    by (auto simp: modeltype_alloc)
qed

lemma distinct_columns: "distinct (columns mt)"
  by (cases mt) (simp_all add: columns_def velocity_columns_def common_columns_def)

lemma DepthArr_not_column: "DepthArr \<notin> set (columns mt)"
  by (cases mt) (simp_all add: columns_def velocity_columns_def common_columns_def)

lemma HArr_column: "HArr \<in> set (columns mt)"
  by (simp add: columns_def)

lemma aligned_col:
  assumes "aligned s" "a \<in> set (columns (modeltype s)) \<or> a = DepthArr"
  shows "self_of s a = Some (col s a)" "length (col s a) = length (col s HArr)"
  using assms by (auto simp: aligned_def col_def)

text \<open>A block of assignments to the columns followed by the new depth array.\<close>

lemma block_then_depth:
  assumes ok: "heap_ok s"
    and rhs: "\<forall>a \<in> set (columns (modeltype s)). \<forall>slf.
                (\<forall>b. b \<notin> set (columns (modeltype s)) \<or> b = a \<longrightarrow> slf b = self_of s b)
                \<longrightarrow> rhs a slf = Inr (F a)"
  shows "\<exists>s'. then_do (for_each (columns (modeltype s)) (\<lambda>a. assign a (rhs a)) s) update_depth = Inr s'
           \<and> post_ok s s' F"
proof -
  let ?cols = "columns (modeltype s)"
  have d: "distinct (map (\<lambda>a. a) ?cols)" using distinct_columns by simp
  have rhs': "\<forall>a \<in> set ?cols. \<forall>slf.
                (\<forall>b. b \<notin> (\<lambda>a. a) ` set ?cols \<or> b = a \<longrightarrow> slf b = self_of s b)
                \<longrightarrow> rhs a slf = Inr (F a)"
    using rhs by simp
  from block_assign[of s "\<lambda>a. a" ?cols rhs F] ok d rhs'
  obtain s1 where run1: "for_each ?cols (\<lambda>a. assign a (rhs a)) s = Inr s1"
    and ok1: "heap_ok s1" and mt1: "modeltype s1 = modeltype s"
    and vals: "\<forall>a \<in> set ?cols. self_of s1 a = Some (F a) \<and> unshared s1 a"
    by blast
  have h1: "self_of s1 HArr = Some (F HArr)" and u1: "unshared s1 HArr"
    using vals HArr_column by auto
  from update_depth_ok[OF ok1 h1] obtain s' where
    run2: "update_depth s1 = Inr s'" and ok': "heap_ok s'" and mt': "modeltype s' = modeltype s1"
    and v': "self_of s' = (self_of s1)(DepthArr \<mapsto> np_cumsum (F HArr))"
    and ud: "unshared s' DepthArr"
    and keep: "\<forall>a. a \<noteq> DepthArr \<longrightarrow> unshared s1 a \<longrightarrow> unshared s' a"
    by blast
  have "columns_are s' F"
    unfolding columns_are_def using vals v' mt' mt1 DepthArr_not_column[of "modeltype s"]
    by auto
  moreover have "unshared s' HArr" using keep u1 by simp
  ultimately have "post_ok s s' F" using ok' ud mt' mt1 by (simp add: post_ok_def)
  then show ?thesis using run1 run2 by (simp add: then_do_def)
qed

lemma addlayer_append_iso:
  assumes ok: "heap_ok s" and al: "aligned s" and iso: "modeltype s = ISOTROPIC"
  shows "\<exists>s'. addlayer_append new s = Inr s' \<and> post_ok s s' (appended new s)"
proof -
  let ?rhs = "\<lambda>a slf. ebind (rd slf (append_source a)) (\<lambda>x. Inr (x @ [new a]))"
  have "\<forall>a \<in> set (columns (modeltype s)). \<forall>slf.
                (\<forall>b. b \<notin> set (columns (modeltype s)) \<or> b = a \<longrightarrow> slf b = self_of s b)
                \<longrightarrow> ?rhs a slf = Inr (appended new s a)"
  proof (intro ballI allI impI)
    fix a slf
    assume a: "a \<in> set (columns (modeltype s))"
      and agree: "\<forall>b. b \<notin> set (columns (modeltype s)) \<or> b = a \<longrightarrow> slf b = self_of s b"
    have src: "append_source a = a"
      using a iso by (auto simp: append_source_def columns_def velocity_columns_def common_columns_def)
    have "slf a = Some (col s a)" using agree aligned_col(1)[OF al] a by simp
    then show "?rhs a slf = Inr (appended new s a)"
      by (simp add: src rd_def ebind_def appended_def)
  qed
  from block_then_depth[of s ?rhs "appended new s", OF ok this]
  show ?thesis by (simp add: addlayer_append_def)
qed


section \<open>Masks and running sums\<close>

lemma masked_Nil [simp]: "masked [] m = []" "masked xs [] = []"
  by (simp_all add: masked_def)

lemma masked_Cons [simp]:
  "masked (x # xs) (b # bs) = (if b then x # masked xs bs else masked xs bs)"
  by (simp add: masked_def)

lemma length_masked:
  "length xs = length m \<Longrightarrow> length (masked xs m) = length (filter (\<lambda>b. b) m)"
  by (induction xs m rule: list_induct2) simp_all

lemma set_masked: "set (masked xs m) \<subseteq> set xs"
  unfolding masked_def by (auto dest: set_zip_leftD)

lemma masked_map_same: "masked xs (map P xs) = filter P xs"
  by (induction xs) simp_all


lemma masked_all:
  "length xs = length ys \<Longrightarrow> \<forall>y \<in> set ys. P y \<Longrightarrow> masked xs (map P ys) = xs"
  by (induction xs ys rule: list_induct2) simp_all

lemma length_cumsum_from [simp]: "length (cumsum_from acc xs) = length xs"
  by (induction xs arbitrary: acc) simp_all

lemma length_tops_from [simp]: "length (tops_from acc xs) = length xs"
  by (induction xs arbitrary: acc) simp_all

lemma cumsum_from_eq_Nil [simp]: "cumsum_from acc xs = [] \<longleftrightarrow> xs = []"
  by (cases xs) simp_all

lemma last_cumsum_from: "xs \<noteq> [] \<Longrightarrow> last (cumsum_from acc xs) = acc + sum_list xs"
  by (induction xs arbitrary: acc) (auto simp: add.assoc)

lemma cumsum_from_append:
  "cumsum_from acc (xs @ ys) = cumsum_from acc xs @ cumsum_from (acc + sum_list xs) ys"
  by (induction xs arbitrary: acc) (simp_all add: add.assoc)

lemma cumsum_from_gt:
  "\<forall>h \<in> set xs. 0 < h \<Longrightarrow> d \<in> set (cumsum_from acc xs) \<Longrightarrow> acc < d"
proof (induction xs arbitrary: acc)
  case Nil then show ?case by simp
next
  case (Cons x xs)
  from Cons.prems(2) consider "d = acc + x" | "d \<in> set (cumsum_from (acc + x) xs)" by auto
  then show ?case
  proof cases
    case 1 then show ?thesis using Cons.prems(1) by simp
  next
    case 2
    then have "acc + x < d" using Cons.IH Cons.prems(1) by simp
    then show ?thesis using Cons.prems(1) by simp
  qed
qed


lemma tops_from_le_total:
  "\<forall>h \<in> set xs. 0 < h \<Longrightarrow> t \<in> set (tops_from acc xs) \<Longrightarrow> t < acc + sum_list xs"
proof (induction xs arbitrary: acc)
  case Nil then show ?case by simp
next
  case (Cons x xs)
  have nn: "0 \<le> sum_list xs" using Cons.prems(1) by (simp add: sum_list_nonneg less_imp_le)
  from Cons.prems(2) consider "t = acc" | "t \<in> set (tops_from (acc + x) xs)" by auto
  then show ?case
  proof cases
    case 1 then show ?thesis using Cons.prems(1) nn by simp
  next
    case 2
    then have "t < acc + x + sum_list xs" using Cons.IH Cons.prems(1) by simp
    then show ?thesis by simp
  qed
qed



lemma tops_from_eq:
  "map2 (\<lambda>d h. d - h) (cumsum_from acc xs) xs = tops_from acc xs"
  by (induction xs arbitrary: acc) simp_all

lemma sum_list_pos_nonneg: "\<forall>h \<in> set xs. (0::real) < h \<Longrightarrow> 0 \<le> sum_list xs"
  by (simp add: sum_list_nonneg less_imp_le)



text \<open>Case 2: what is left of the stack below the new first layer.\<close>

lemma prepend_part:
  assumes "\<forall>h \<in> set hs. 0 < h" "acc \<le> H" "H < acc + sum_list hs"
  shows "masked (cumsum_from acc hs) (map (\<lambda>d. d > H) (cumsum_from acc hs)) \<noteq> []
     \<and> masked hs (map (\<lambda>d. d > H) (cumsum_from acc hs)) \<noteq> []
     \<and> sum_list ((masked hs (map (\<lambda>d. d > H) (cumsum_from acc hs)))
                   [0 := hd (masked (cumsum_from acc hs) (map (\<lambda>d. d > H) (cumsum_from acc hs))) - H])
         = acc + sum_list hs - H"
  using assms
proof (induction hs arbitrary: acc)
  case Nil then show ?case by simp
next
  case (Cons h hs)
  have pos: "\<forall>x \<in> set hs. 0 < x" and h: "0 < h" using Cons.prems(1) by simp_all
  show ?case
  proof (cases "acc + h > H")
    case True
    have gt: "\<forall>d \<in> set (cumsum_from (acc + h) hs). d > H"
      using cumsum_from_gt[OF pos, of _ "acc + h"] True by fastforce
    have e: "masked hs (map (\<lambda>d. d > H) (cumsum_from (acc + h) hs)) = hs"
      using gt by (intro masked_all) simp_all
    show ?thesis using True e by simp
  next
    case False
    then have a: "acc + h \<le> H" by simp
    have b: "H < acc + h + sum_list hs" using Cons.prems(3) by simp
    from Cons.IH[OF pos a b] False show ?thesis by simp
  qed
qed


section \<open>The three cases of \<^verbatim>\<open>addlayer\<close>\<close>




lemma setitem0_ok:
  assumes ok: "heap_ok s" and v: "self_of s a = Some xs" and ne: "xs \<noteq> []"
    and un: "unshared s a" and rhs: "rhs (self_of s) = Inr v"
  shows "\<exists>s'. setitem0 a rhs s = Inr s' \<and> heap_ok s' \<and> modeltype s' = modeltype s
      \<and> self_of s' = (self_of s)(a \<mapsto> xs[0 := v])
      \<and> (\<forall>b. unshared s' b = unshared s b)"
proof -
  from v obtain r where r: "attrs s a = Some r" and hr: "heap s r = xs"
    by (auto simp: self_of_def)
  let ?s' = "s\<lparr>heap := (heap s)(r := xs[0 := v])\<rparr>"
  have run: "setitem0 a rhs s = Inr ?s'"
    using rhs r hr ne by (simp add: setitem0_def)
  have ok': "heap_ok ?s'" using ok by (simp add: heap_ok_iff)
  have "self_of ?s' b = ((self_of s)(a \<mapsto> xs[0 := v])) b" for b
  proof (cases "b = a")
    case True then show ?thesis using r by (simp add: self_of_def)
  next
    case False
    then have "attrs s b \<noteq> Some r" using un r by (simp add: unshared_iff)
    then show ?thesis using False by (cases "attrs s b") (simp_all add: self_of_def)
  qed
  then have view: "self_of ?s' = (self_of s)(a \<mapsto> xs[0 := v])" by (rule ext)
  have "unshared ?s' b = unshared s b" for b by (simp add: unshared_def)
  then show ?thesis using run ok' view by auto
qed

lemma addlayer_prepend_ok:
  assumes ok: "heap_ok s" and al: "aligned s"
    and ne: "masked (col s DepthArr) (map (\<lambda>d. d > H) (col s DepthArr)) \<noteq> []"
  shows "\<exists>s'. addlayer_prepend H new s = Inr s' \<and> post_ok s s' (prepended H new s)"
proof -
  let ?cols = "columns (modeltype s)"
  let ?D = "col s DepthArr"
  let ?m = "map (\<lambda>d. d > H) ?D"
  let ?rhs1 = "\<lambda>a slf. ebind (rd slf a) (\<lambda>x. ebind (rd slf DepthArr) (\<lambda>D.
                  np_mask x (map (\<lambda>d. d > H) D)))"
  let ?g1 = "\<lambda>a. masked (col s a) ?m"
  have D: "self_of s DepthArr = Some ?D" and lenD: "length ?D = length (col s HArr)"
    using aligned_col[OF al, of DepthArr] by simp_all
  have r1: "\<forall>a \<in> set ?cols. \<forall>slf.
              (\<forall>b. b \<notin> (\<lambda>a. a) ` set ?cols \<or> b = a \<longrightarrow> slf b = self_of s b)
              \<longrightarrow> ?rhs1 a slf = Inr (?g1 a)"
  proof (intro ballI allI impI)
    fix a slf assume a: "a \<in> set ?cols"
      and agree: "\<forall>b. b \<notin> (\<lambda>a. a) ` set ?cols \<or> b = a \<longrightarrow> slf b = self_of s b"
    have "slf a = Some (col s a)" using agree aligned_col(1)[OF al, of a] a by simp
    moreover have "slf DepthArr = Some ?D" using agree D DepthArr_not_column by simp
    moreover have "length (col s a) = length ?D" using aligned_col(2)[OF al, of a] a lenD by simp
    ultimately show "?rhs1 a slf = Inr (?g1 a)"
      by (simp add: rd_def ebind_def np_mask_def)
  qed
  have d: "distinct (map (\<lambda>a. a) ?cols)" using distinct_columns by simp
  from block_assign[of s "\<lambda>a. a" ?cols ?rhs1 ?g1] ok d r1
  obtain s1 where run1: "for_each ?cols (\<lambda>a. assign a (?rhs1 a)) s = Inr s1"
    and ok1: "heap_ok s1" and mt1: "modeltype s1 = modeltype s"
    and vals1: "\<forall>a \<in> set ?cols. self_of s1 a = Some (?g1 a) \<and> unshared s1 a"
    and rest1: "\<forall>b. b \<notin> (\<lambda>a. a) ` set ?cols \<longrightarrow> self_of s1 b = self_of s b"
    by blast
  have D1: "self_of s1 DepthArr = Some ?D" using rest1 D DepthArr_not_column by simp
  have H1: "self_of s1 HArr = Some (?g1 HArr)" and u1: "unshared s1 HArr"
    using vals1 HArr_column by auto
  have "length (?g1 HArr) = length (masked ?D ?m)"
    using lenD by (simp add: length_masked)
  then have neH: "?g1 HArr \<noteq> []" using ne by auto
  let ?v = "hd (masked ?D ?m) - H"
  let ?rhs2 = "\<lambda>slf. ebind (rd slf DepthArr) (\<lambda>D.
                  ebind (np_mask D (map (\<lambda>d. d > H) D)) (\<lambda>k.
                  ebind (item0 k) (\<lambda>d0. Inr (d0 - H))))"
  have r2: "?rhs2 (self_of s1) = Inr ?v"
    using D1 ne by (cases "masked ?D ?m") (simp_all add: rd_def ebind_def np_mask_def item0_def)
  from setitem0_ok[of s1 HArr "?g1 HArr" ?rhs2 ?v, OF ok1 H1 neH u1 r2]
  obtain s2 where run2: "setitem0 HArr ?rhs2 s1 = Inr s2"
    and ok2: "heap_ok s2" and mt2: "modeltype s2 = modeltype s1"
    and view2: "self_of s2 = (self_of s1)(HArr \<mapsto> (?g1 HArr)[0 := ?v])"
    by blast
  let ?rhs3 = "\<lambda>a slf. ebind (rd slf a) (\<lambda>x. Inr (new a # x))"
  have r3: "\<forall>a \<in> set (columns (modeltype s2)). \<forall>slf.
              (\<forall>b. b \<notin> set (columns (modeltype s2)) \<or> b = a \<longrightarrow> slf b = self_of s2 b)
              \<longrightarrow> ?rhs3 a slf = Inr (prepended H new s a)"
  proof (intro ballI allI impI)
    fix a slf assume a: "a \<in> set (columns (modeltype s2))"
      and agree: "\<forall>b. b \<notin> set (columns (modeltype s2)) \<or> b = a \<longrightarrow> slf b = self_of s2 b"
    have a': "a \<in> set ?cols" using a mt2 mt1 by simp
    have "slf a = self_of s2 a" using agree by simp
    also have "\<dots> = Some (if a = HArr then (?g1 HArr)[0 := ?v] else ?g1 a)"
      using view2 vals1 a' by simp
    finally show "?rhs3 a slf = Inr (prepended H new s a)"
      by (simp add: rd_def ebind_def prepended_def Let_def)
  qed
  from block_then_depth[of s2 ?rhs3 "prepended H new s", OF ok2 r3]
  obtain s' where run3: "then_do (for_each (columns (modeltype s2)) (\<lambda>a. assign a (?rhs3 a)) s2)
                            update_depth = Inr s'"
    and post: "post_ok s2 s' (prepended H new s)"
    by blast
  have "post_ok s s' (prepended H new s)"
    using post mt2 mt1 by (simp add: post_ok_def columns_are_def)
  moreover have "addlayer_prepend H new s = Inr s'"
    using run1 run2 run3 by (simp add: addlayer_prepend_def then_do_def)
  ultimately show ?thesis by blast
qed





lemma columns_split: "columns mt = HArr # tl (columns mt)" "HArr \<notin> set (tl (columns mt))"
  by (cases mt; simp add: columns_def velocity_columns_def common_columns_def)+



text \<open>The model invariant from the contents of the columns.\<close>

lemma model_okI:
  assumes post: "post_ok s s' F"
    and len: "\<forall>a \<in> set (columns (modeltype s)). length (F a) = length (F HArr)"
    and pos: "\<forall>h \<in> set (F HArr). 0 < h"
  shows "model_ok s'"
proof -
  from post have mt: "modeltype s' = modeltype s" and ok: "heap_ok s'"
    and u: "unshared s' HArr" "unshared s' DepthArr"
    and cols: "\<forall>a \<in> set (columns (modeltype s)). self_of s' a = Some (F a)"
    and dep: "self_of s' DepthArr = Some (np_cumsum (F HArr))"
    by (simp_all add: post_ok_def columns_are_def)
  have c: "col s' a = F a" if "a \<in> set (columns (modeltype s))" for a
    using cols that by (simp add: col_def)
  have cH: "col s' HArr = F HArr" using c HArr_column by simp
  have cD: "col s' DepthArr = np_cumsum (F HArr)" using dep by (simp add: col_def)
  have "aligned s'"
    unfolding aligned_def using cols dep len mt c cH cD by (auto simp: np_cumsum_def)
  then show ?thesis unfolding model_ok_def using ok u pos cH cD by simp
qed

lemma post_ok_col:
  assumes "post_ok s s' F"
  shows "a \<in> set (columns (modeltype s)) \<Longrightarrow> col s' a = F a"
    and "col s' DepthArr = np_cumsum (F HArr)"
    and "modeltype s' = modeltype s"
  using assms by (simp_all add: post_ok_def columns_are_def col_def)


lemma totalDepth_sum:
  assumes "model_ok s"
  shows "totalDepth s = sum_list (col s HArr)"
proof -
  from assms have D: "col s DepthArr = np_cumsum (col s HArr)" by (simp add: model_ok_def)
  show ?thesis
    unfolding totalDepth_def D np_cumsum_def
    by (cases "col s HArr = []") (simp_all add: last_cumsum_from)
qed

lemma bottom_of_stack:
  assumes al: "aligned s" and ne: "col s DepthArr \<noteq> []"
  shows "ebind (rd (self_of s) DepthArr) item_last = Inr (totalDepth s)"
  using aligned_col(1)[OF al, of DepthArr] ne
  by (simp add: rd_def ebind_def item_last_def totalDepth_def)

lemma layer_HArr [simp]: "layer H vsv vsh vpv vph vpf rho Qp Qs etap etas frefp frefs HArr = H"
  by (simp add: layer_def)

text \<open>Case 1 on an isotropic model, whatever the sign of \<open>H\<close>.\<close>

lemma addlayer_case1:
  assumes ok: "heap_ok s" and al: "aligned s" and iso: "modeltype s = ISOTROPIC"
    and ne: "col s DepthArr \<noteq> []" and z: "totalDepth s \<le> zmin"
  shows "\<exists>s' new. addlayer H vsv vsh vpv vph vpf rho Qp Qs etap etas frefp frefs zmin s = Inr s'
           \<and> new HArr = H \<and> post_ok s s' (appended new s)"
proof -
  let ?vpv = "case vpv of None \<Rightarrow> brocher_vp vsv | Some v \<Rightarrow> v"
  let ?new = "layer H vsv (case vsh of None \<Rightarrow> vsv | Some v \<Rightarrow> v) ?vpv
                (case vph of None \<Rightarrow> ?vpv | Some v \<Rightarrow> v)
                (case vpf of None \<Rightarrow> np_sqrt (?vpv ^ 2 - 2 * vsv ^ 2) | Some v \<Rightarrow> v)
                (case rho of None \<Rightarrow> brocher_rho ?vpv | Some v \<Rightarrow> v)
                Qp Qs etap etas frefp frefs"
  have "addlayer H vsv vsh vpv vph vpf rho Qp Qs etap etas frefp frefs zmin s = addlayer_append ?new s"
    unfolding addlayer_def Let_def bottom_of_stack[OF al ne] using z by simp
  moreover from addlayer_append_iso[OF ok al iso, of ?new]
  obtain s' where "addlayer_append ?new s = Inr s'" "post_ok s s' (appended ?new s)" by blast
  ultimately show ?thesis by (intro exI[of _ s'] exI[of _ ?new]) simp
qed

lemma addlayer_case2:
  assumes ok: "heap_ok s" and al: "aligned s"
    and ne: "col s DepthArr \<noteq> []" and z: "zmin < totalDepth s" "zmin \<le> 0"
    and sel: "masked (col s DepthArr) (map (\<lambda>d. d > H) (col s DepthArr)) \<noteq> []"
  shows "\<exists>s' new. addlayer H vsv vsh vpv vph vpf rho Qp Qs etap etas frefp frefs zmin s = Inr s'
           \<and> new HArr = H \<and> post_ok s s' (prepended H new s)"
proof -
  let ?vpv = "case vpv of None \<Rightarrow> brocher_vp vsv | Some v \<Rightarrow> v"
  let ?new = "layer H vsv (case vsh of None \<Rightarrow> vsv | Some v \<Rightarrow> v) ?vpv
                (case vph of None \<Rightarrow> ?vpv | Some v \<Rightarrow> v)
                (case vpf of None \<Rightarrow> np_sqrt (?vpv ^ 2 - 2 * vsv ^ 2) | Some v \<Rightarrow> v)
                (case rho of None \<Rightarrow> brocher_rho ?vpv | Some v \<Rightarrow> v)
                Qp Qs etap etas frefp frefs"
  have "addlayer H vsv vsh vpv vph vpf rho Qp Qs etap etas frefp frefs zmin s = addlayer_prepend H ?new s"
    unfolding addlayer_def Let_def bottom_of_stack[OF al ne] using z by simp
  moreover from addlayer_prepend_ok[OF ok al sel, of ?new]
  obtain s' where "addlayer_prepend H ?new s = Inr s'" "post_ok s s' (prepended H ?new s)" by blast
  ultimately show ?thesis by (intro exI[of _ s'] exI[of _ ?new]) simp
qed



section \<open>\<^verbatim>\<open>addlayer\<close> keeps the invariant\<close>

lemma model_ok_parts:
  assumes "model_ok s"
  shows "heap_ok s" "aligned s" "\<forall>h \<in> set (col s HArr). 0 < h"
    "col s DepthArr = cumsum_from 0 (col s HArr)"
    "map2 (\<lambda>d h. d - h) (col s DepthArr) (col s HArr) = tops_from 0 (col s HArr)"
    "length (col s DepthArr) = length (col s HArr)"
  using assms by (simp_all add: model_ok_def np_cumsum_def tops_from_eq)

lemma model_ok_nonempty:
  assumes "model_ok s" "0 < totalDepth s"
  shows "col s DepthArr \<noteq> []" "col s HArr \<noteq> []"
  using assms model_ok_parts(6)[OF assms(1)] by (auto simp: totalDepth_def)

lemma hd_filter: "filter P xs \<noteq> [] \<Longrightarrow> P (hd (filter P xs))"
proof -
  assume "filter P xs \<noteq> []"
  then have "hd (filter P xs) \<in> set (filter P xs)" by (rule hd_in_set)
  then show ?thesis by simp
qed


text \<open>Case 2 keeps the invariant and the total depth.\<close>

lemma addlayer_prepend_model_ok:
  assumes mo: "model_ok s" and H: "0 < H" and z: "zmin \<le> 0" and t: "H < totalDepth s"
  shows "\<exists>s'. addlayer H vsv vsh vpv vph vpf rho Qp Qs etap etas frefp frefs zmin s = Inr s'
           \<and> model_ok s' \<and> modeltype s' = modeltype s \<and> totalDepth s' = totalDepth s"
proof -
  note p = model_ok_parts[OF mo]
  let ?Hs = "col s HArr" and ?D = "col s DepthArr"
  let ?m = "map (\<lambda>d. d > H) ?D"
  have tot: "totalDepth s = sum_list ?Hs" by (rule totalDepth_sum[OF mo])
  have ne: "?D \<noteq> []" using model_ok_nonempty[OF mo] H t by simp
  from prepend_part[OF p(3), of 0 H] H t tot p(4)
  have sel: "masked ?D ?m \<noteq> []"
    and sum: "sum_list ((masked ?Hs ?m)[0 := hd (masked ?D ?m) - H]) = sum_list ?Hs - H"
    by simp_all
  have zt: "zmin < totalDepth s" using z H t by simp
  from addlayer_case2[OF p(1) p(2) ne zt z sel, of vsv vsh vpv vph vpf rho Qp Qs etap etas frefp frefs]
  obtain s' new where run: "addlayer H vsv vsh vpv vph vpf rho Qp Qs etap etas frefp frefs zmin s = Inr s'"
    and new: "new HArr = H" and post: "post_ok s s' (prepended H new s)" by blast
  have len: "\<forall>a \<in> set (columns (modeltype s)). length (prepended H new s a) = length (prepended H new s HArr)"
    using aligned_col(2)[OF p(2)] p(6) by (simp add: prepended_def Let_def length_masked)
  have hdgt: "hd (masked ?D ?m) > H"
    using hd_filter[of "\<lambda>d. d > H" ?D] sel by (simp add: masked_map_same)
  have pos: "\<forall>h \<in> set (prepended H new s HArr). 0 < h"
  proof
    fix h assume "h \<in> set (prepended H new s HArr)"
    then have "h = H \<or> h \<in> set ((masked ?Hs ?m)[0 := hd (masked ?D ?m) - H])"
      using new by (simp add: prepended_def Let_def)
    moreover have "set ((masked ?Hs ?m)[0 := hd (masked ?D ?m) - H])
                     \<subseteq> insert (hd (masked ?D ?m) - H) (set (masked ?Hs ?m))"
      by (rule set_update_subset_insert)
    ultimately have "h = H \<or> h = hd (masked ?D ?m) - H \<or> h \<in> set ?Hs"
      using set_masked[of ?Hs ?m] by auto
    then show "0 < h" using H hdgt p(3) by auto
  qed
  have mo': "model_ok s'" by (rule model_okI[OF post len pos])
  have "totalDepth s' = sum_list (prepended H new s HArr)"
    using totalDepth_sum[OF mo'] post_ok_col(1)[OF post HArr_column] by simp
  then have "totalDepth s' = totalDepth s"
    using tot new sum by (simp add: prepended_def Let_def)
  then show ?thesis using run mo' post_ok_col(3)[OF post] by blast
qed


lemmas invariants =
  model_ok_def heap_ok_def unshared_def all_attrs_def aligned_def col_def totalDepth_def
  columns_def velocity_columns_def common_columns_def np_cumsum_def

lemma model_ok_example_iso: "model_ok example_iso"
  by (simp add: example_iso_def instance_of_def invariants self_of_def attrs_alloc fresh_alloc
      heap_alloc modeltype_alloc)

lemma model_ok_example_iso3: "model_ok example_iso3"
  by (simp add: example_iso3_def instance_of_def invariants self_of_def attrs_alloc fresh_alloc
      heap_alloc modeltype_alloc)

lemma model_ok_example_ti: "model_ok example_ti"
  by (simp add: example_ti_def instance_of_def invariants self_of_def attrs_alloc fresh_alloc
      heap_alloc modeltype_alloc)

lemma facts_example_iso:
  "modeltype example_iso = ISOTROPIC" "col example_iso HArr = [10]" "totalDepth example_iso = 10"
  by (simp_all add: example_iso_def instance_of_def invariants self_of_def attrs_alloc fresh_alloc
      heap_alloc modeltype_alloc)


section \<open>Exceptions of the interior insertion\<close>

lemma collect_keys: "collect xs f = Inr r \<Longrightarrow> map fst r = xs"
proof (induction xs arbitrary: r)
  case Nil then show ?case by simp
next
  case (Cons x xs)
  then show ?case by (auto simp: ebind_def split: sum.splits)
qed

lemma map2_keys:
  "length F = length T \<Longrightarrow> map fst (map2 (\<lambda>(a, v) (b, f). (a, g v f)) T F) = map fst T"
  by (induction T F rule: list_induct2') auto

lemma ebind_Inr: "ebind m f = Inr r \<longleftrightarrow> (\<exists>v. m = Inr v \<and> f v = Inr r)"
  by (cases m) (simp_all add: ebind_def)

lemma top_fragment_keys:
  assumes "(if c then ebind (first_entries (tl cols) slf m)
                    (\<lambda>t. Inr (map2 (\<lambda>(a, v) (b, f). (a, v @ [f])) T ((HArr, x) # t)))
            else Inr T) = Inr T1"
    and "map fst T = cols" "cols = HArr # tl cols"
  shows "map fst T1 = cols"
proof (cases c)
  case False with assms(1,2) show ?thesis by simp
next
  case True
  with assms(1) obtain t where t: "first_entries (tl cols) slf m = Inr t"
    and T1: "T1 = map2 (\<lambda>(a, v) (b, f). (a, v @ [f])) T ((HArr, x) # t)"
    by (auto simp: ebind_Inr)
  have "length t = length (tl cols)"
    using collect_keys[OF t[unfolded first_entries_def]] by (metis length_map)
  moreover have "length T = length cols" using assms(2) by (metis length_map)
  moreover have "length cols = Suc (length (tl cols))" using assms(3) by (metis length_Cons)
  ultimately have "Suc (length t) = length T" by linarith
  then have len: "length ((HArr, x) # t) = length T" by (simp only: length_Cons)
  have "map fst T1 = map fst T" unfolding T1 by (rule map2_keys[OF len])
  then show ?thesis using assms(2) by (rule trans)
qed

lemma bottom_fragment_keys:
  assumes "(if c then ebind (last_entries (tl cols) slf m)
                    (\<lambda>b. Inr (map2 (\<lambda>(a, v) (c, f). (a, f # v)) B ((HArr, x) # b)))
            else Inr B) = Inr B1"
    and "map fst B = cols" "cols = HArr # tl cols"
  shows "map fst B1 = cols"
proof (cases c)
  case False with assms(1,2) show ?thesis by simp
next
  case True
  with assms(1) obtain t where t: "last_entries (tl cols) slf m = Inr t"
    and B1: "B1 = map2 (\<lambda>(a, v) (c, f). (a, f # v)) B ((HArr, x) # t)"
    by (auto simp: ebind_Inr)
  have "length t = length (tl cols)"
    using collect_keys[OF t[unfolded last_entries_def]] by (metis length_map)
  moreover have "length B = length cols" using assms(2) by (metis length_map)
  moreover have "length cols = Suc (length (tl cols))" using assms(3) by (metis length_Cons)
  ultimately have "Suc (length t) = length B" by linarith
  then have len: "length ((HArr, x) # t) = length B" by (simp only: length_Cons)
  have "map fst B1 = map fst B" unfolding B1 by (rule map2_keys[OF len])
  then show ?thesis using assms(2) by (rule trans)
qed

lemma interior_locals_keys:
  assumes "interior_locals H zmin mt slf = Inr (T', B')"
  shows "map fst T' = columns mt \<and> map fst B' = columns mt"
proof -
  let ?cols = "columns mt"
  have c: "?cols = HArr # tl ?cols" by (rule columns_split(1))
  from assms have "\<exists>T B c1 c2 m1 m2 m3 m4 x y.
      select_columns ?cols slf m1 = Inr T
      \<and> (if c1 then ebind (first_entries (tl ?cols) slf m2)
                    (\<lambda>t. Inr (map2 (\<lambda>(a, v) (b, f). (a, v @ [f])) T ((HArr, x) # t)))
          else Inr T) = Inr T'
      \<and> select_columns ?cols slf m3 = Inr B
      \<and> (if c2 then ebind (last_entries (tl ?cols) slf m4)
                    (\<lambda>b. Inr (map2 (\<lambda>(a, v) (c, f). (a, f # v)) B ((HArr, y) # b)))
          else Inr B) = Inr B'"
    unfolding interior_locals_def Let_def ebind_Inr by blast
  then obtain T B c1 c2 m1 m2 m3 m4 x y where
    T: "select_columns ?cols slf m1 = Inr T"
    and T': "(if c1 then ebind (first_entries (tl ?cols) slf m2)
                    (\<lambda>t. Inr (map2 (\<lambda>(a, v) (b, f). (a, v @ [f])) T ((HArr, x) # t)))
          else Inr T) = Inr T'"
    and B: "select_columns ?cols slf m3 = Inr B"
    and B': "(if c2 then ebind (last_entries (tl ?cols) slf m4)
                    (\<lambda>b. Inr (map2 (\<lambda>(a, v) (c, f). (a, f # v)) B ((HArr, y) # b)))
          else Inr B) = Inr B'"
    by blast
  have kT: "map fst T = ?cols" using collect_keys[OF T[unfolded select_columns_def]] .
  have kB: "map fst B = ?cols" using collect_keys[OF B[unfolded select_columns_def]] .
  show ?thesis
    using top_fragment_keys[OF T' kT c] bottom_fragment_keys[OF B' kB c] by simp
qed

lemma assign_blocks_total:
  "\<exists>s1. for_each xs (\<lambda>(a, v). assign a (\<lambda>slf. Inr (f a v))) s = Inr s1
        \<and> (\<forall>b. attrs s b \<noteq> None \<longrightarrow> attrs s1 b \<noteq> None)
        \<and> (\<forall>x \<in> set xs. attrs s1 (fst x) \<noteq> None)"
proof (induction xs arbitrary: s)
  case Nil then show ?case by simp
next
  case (Cons x xs)
  obtain a v where x: "x = (a, v)" by (cases x)
  from Cons.IH[of "alloc a (f a v) s"] obtain s1 where
    run: "for_each xs (\<lambda>(a, v). assign a (\<lambda>slf. Inr (f a v))) (alloc a (f a v) s) = Inr s1"
    and keep: "\<forall>b. attrs (alloc a (f a v) s) b \<noteq> None \<longrightarrow> attrs s1 b \<noteq> None"
    and new: "\<forall>x \<in> set xs. attrs s1 (fst x) \<noteq> None" by blast
  have "for_each (x # xs) (\<lambda>(a, v). assign a (\<lambda>slf. Inr (f a v))) s = Inr s1"
    using run x by (simp add: assign_def then_do_def)
  moreover have "\<forall>b. attrs s b \<noteq> None \<longrightarrow> attrs s1 b \<noteq> None"
    using keep by (simp add: attrs_alloc)
  moreover have "\<forall>y \<in> set (x # xs). attrs s1 (fst y) \<noteq> None"
    using keep new x by (simp add: attrs_alloc)
  ultimately show ?case by blast
qed

lemma extend_blocks_total:
  "\<forall>x \<in> set ys. attrs s (fst x) \<noteq> None \<Longrightarrow>
   \<exists>s2. for_each ys (\<lambda>(a, v). assign a (\<lambda>slf. ebind (rd slf a) (\<lambda>x. Inr (x @ v)))) s = Inr s2
        \<and> (\<forall>b. attrs s b \<noteq> None \<longrightarrow> attrs s2 b \<noteq> None)"
proof (induction ys arbitrary: s)
  case Nil then show ?case by simp
next
  case (Cons y ys)
  obtain a v where y: "y = (a, v)" by (cases y)
  from Cons.prems y obtain r where r: "attrs s a = Some r" by auto
  let ?s1 = "alloc a (heap s r @ v) s"
  have pres: "\<forall>b. attrs s b \<noteq> None \<longrightarrow> attrs ?s1 b \<noteq> None" by (simp add: attrs_alloc)
  then have "\<forall>x \<in> set ys. attrs ?s1 (fst x) \<noteq> None" using Cons.prems by simp
  from Cons.IH[OF this] obtain s2 where
    run: "for_each ys (\<lambda>(a, v). assign a (\<lambda>slf. ebind (rd slf a) (\<lambda>x. Inr (x @ v)))) ?s1 = Inr s2"
    and keep: "\<forall>b. attrs ?s1 b \<noteq> None \<longrightarrow> attrs s2 b \<noteq> None" by blast
  have "for_each (y # ys) (\<lambda>(a, v). assign a (\<lambda>slf. ebind (rd slf a) (\<lambda>x. Inr (x @ v)))) s = Inr s2"
    using run y r by (simp add: assign_def then_do_def rd_def ebind_def self_of_def)
  moreover have "\<forall>b. attrs s b \<noteq> None \<longrightarrow> attrs s2 b \<noteq> None" using keep pres by blast
  ultimately show ?case by blast
qed

text \<open>Every exception of case 3 is raised while the local arrays are computed, before
  the first attribute is assigned.\<close>

lemma addlayer_interior_atomic:
  assumes "addlayer_interior H new zmin s = Inl (e, s')"
  shows "s' = s"
proof (cases "interior_locals H zmin (modeltype s) (self_of s)")
  case (Inl err)
  with assms show ?thesis by (simp add: addlayer_interior_def)
next
  case (Inr tb)
  obtain T' B' where tb: "tb = (T', B')" by (cases tb)
  from interior_locals_keys[of H zmin "modeltype s" "self_of s" T' B'] Inr tb
  have kT: "map fst T' = columns (modeltype s)" and kB: "map fst B' = columns (modeltype s)"
    by simp_all
  from assign_blocks_total[of T' "\<lambda>a v. v @ [new a]" s] obtain s1 where
    run1: "for_each T' (\<lambda>(a, v). assign a (\<lambda>slf. Inr (v @ [new a]))) s = Inr s1"
    and new1: "\<forall>x \<in> set T'. attrs s1 (fst x) \<noteq> None" by blast
  have cols1: "\<forall>a \<in> set (columns (modeltype s)). attrs s1 a \<noteq> None"
    using new1 kT by (metis (no_types, lifting) image_iff list.set_map)
  then have "\<forall>x \<in> set B'. attrs s1 (fst x) \<noteq> None"
    using kB by (metis (no_types, lifting) image_eqI list.set_map)
  from extend_blocks_total[OF this] obtain s2 where
    run2: "for_each B' (\<lambda>(a, v). assign a (\<lambda>slf. ebind (rd slf a) (\<lambda>x. Inr (x @ v)))) s1 = Inr s2"
    and keep2: "\<forall>b. attrs s1 b \<noteq> None \<longrightarrow> attrs s2 b \<noteq> None" by blast
  have "attrs s2 HArr \<noteq> None" using keep2 cols1 HArr_column by blast
  then have "\<exists>s3. update_depth s2 = Inr s3"
    by (auto simp: update_depth_def assign_def rd_def ebind_def self_of_def)
  then have "\<exists>s3. addlayer_interior H new zmin s = Inr s3"
    using Inr tb run1 run2 by (auto simp: addlayer_interior_def then_do_def)
  with assms show ?thesis by simp
qed


section \<open>Total depth after an insertion\<close>





section \<open>A thickness that is not positive\<close>

text \<open>
  C9 (amended). \<^verbatim>\<open>addlayer\<close> does not look at the sign of the thickness: on a non-empty
  isotropic model that satisfies the invariant, an append with \<open>H \<le> 0\<close> returns normally,
  with \<open>H\<close> as the last thickness, and the new stack breaks the invariant.
\<close>

theorem addlayer_accepts_nonpositive_thickness:
  assumes "model_ok s" "modeltype s = ISOTROPIC" "col s HArr \<noteq> []" "totalDepth s \<le> zmin"
    and "H \<le> 0"
  shows "\<exists>s'. addlayer H vsv vsh vpv vph vpf rho Qp Qs etap etas frefp frefs zmin s = Inr s'
           \<and> col s' HArr = col s HArr @ [H] \<and> \<not> layer_stack_inv s'"
proof -
  note p = model_ok_parts[OF assms(1)]
  have neD: "col s DepthArr \<noteq> []" using assms(3) p(6) by auto
  from addlayer_case1[OF p(1) p(2) assms(2) neD assms(4), of H vsv vsh vpv vph vpf rho Qp Qs etap etas frefp frefs]
  obtain s' new where run: "addlayer H vsv vsh vpv vph vpf rho Qp Qs etap etas frefp frefs zmin s = Inr s'"
    and new: "new HArr = H" and post: "post_ok s s' (appended new s)" by blast
  have c: "col s' HArr = col s HArr @ [H]"
    using post_ok_col(1)[OF post HArr_column] new by (simp add: appended_def)
  then have "\<not> (\<forall>h \<in> set (col s' HArr). 0 < h)" using assms(5) by auto
  then have "\<not> layer_stack_inv s'" by (simp add: layer_stack_inv_def)
  with run c show ?thesis by blast
qed

theorem addlayer_accepts_nonpositive_thickness_witness:
  "model_ok example_iso \<and> modeltype example_iso = ISOTROPIC \<and> totalDepth example_iso \<le> 9999
   \<and> (\<exists>s'. addlayer (- 1) 4 None (Some 7) None None (Some (5 / 2)) 300 100 0 0 1 1 9999 example_iso
            = Inr s'
          \<and> col s' HArr = [10, - 1] \<and> \<not> layer_stack_inv s')"
  using addlayer_accepts_nonpositive_thickness
          [of example_iso 9999 "- 1" 4 None "Some 7" None None "Some (5 / 2)" 300 100 0 0 1 1]
    model_ok_example_iso facts_example_iso
  by simp

text \<open>One layer of thickness 10, \<^verbatim>\<open>addlayer(H=-1, ...)\<close> with the default \<open>zmin\<close>: no
  exception, and the thickness column becomes \<open>[10, -1]\<close>.\<close>

theorem addlayer_negative_thickness_returns:
  "case addlayer (- 1) 4 None (Some 7) None None (Some (5 / 2)) 300 100 0 0 1 1 9999 example_iso of
     Inl err \<Rightarrow> False
   | Inr s' \<Rightarrow> self_of s' HArr = Some [10, - 1] \<and> self_of s' DepthArr = Some [10, 9]"
  by (simp add: example_iso_def exec concrete)


section \<open>Failures that leave the model as it was\<close>

text \<open>
  C7 (amended). An operation that fails before its first write leaves the model exactly
  as it was: \<^verbatim>\<open>perturb\<close> with a fraction outside \<open>[-1, 1]\<close> (1.5, say) raises \<^verbatim>\<open>ValueError\<close>
  at line 527; \<^verbatim>\<open>addlayer\<close> on a model whose depth array is empty raises \<^verbatim>\<open>IndexError\<close>
  at line 180; and whenever \<^verbatim>\<open>addlayer\<close> raises in the interior insertion
  (\<open>0 < zmin\<close> below the total depth), for either model type, the state at the raise is
  the state before the call.
\<close>

theorem failures_before_first_write_are_atomic:
  "(dm > 1 \<or> dm < - 1 \<longrightarrow> perturb dm zmin zmax dtype s = Inl (ValueError msg_range, s))
   \<and> (self_of s DepthArr = Some [] \<longrightarrow>
        addlayer H vsv vsh vpv vph vpf rho Qp Qs etap etas frefp frefs z s = Inl (IndexError, s))
   \<and> (0 < z \<and> z < totalDepth s
        \<and> addlayer H vsv vsh vpv vph vpf rho Qp Qs etap etas frefp frefs z s = Inl (e, s')
        \<longrightarrow> s' = s)"
proof (intro conjI impI)
  assume "dm > 1 \<or> dm < - 1"
  then show "perturb dm zmin zmax dtype s = Inl (ValueError msg_range, s)"
    by (simp add: perturb_def)
next
  assume "self_of s DepthArr = Some []"
  then show "addlayer H vsv vsh vpv vph vpf rho Qp Qs etap etas frefp frefs z s = Inl (IndexError, s)"
    by (simp add: addlayer_def Let_def rd_def ebind_def item_last_def)
next
  assume a: "0 < z \<and> z < totalDepth s
        \<and> addlayer H vsv vsh vpv vph vpf rho Qp Qs etap etas frefp frefs z s = Inl (e, s')"
  then have ne: "col s DepthArr \<noteq> []" and lst: "z < last (col s DepthArr)"
    by (auto simp: totalDepth_def split: if_splits)
  then obtain D where D: "self_of s DepthArr = Some D" "D \<noteq> []" "z < last D"
    by (cases "self_of s DepthArr") (auto simp: col_def)
  from a D obtain new where "addlayer_interior H new z s = Inl (e, s')"
    by (auto simp: addlayer_def Let_def rd_def ebind_def item_last_def)
  then show "s' = s" by (rule addlayer_interior_atomic)
qed

theorem failures_before_first_write_are_atomic_witness:
  "perturb (3 / 2) 0 10 ''vs'' example_iso = Inl (ValueError msg_range, example_iso)
   \<and> self_of example_empty DepthArr = Some []
   \<and> addlayer 2 4 None (Some 7) None None (Some (5 / 2)) 300 100 0 0 1 1 9999 example_empty
        = Inl (IndexError, example_empty)
   \<and> totalDepth example_iso = 10
   \<and> addlayer (- 20) 4 None (Some 7) None None (Some (5 / 2)) 300 100 0 0 1 1 5 example_iso
        = Inl (IndexError, example_iso)"
proof -
  have e: "self_of example_empty DepthArr = Some []"
    by (simp add: example_empty_def instance_of_def self_of_alloc heap_ok_alloc heap_ok_empty)
  have r: "addlayer (- 20) 4 None (Some 7) None None (Some (5 / 2)) 300 100 0 0 1 1 5 example_iso
             = Inl (IndexError, example_iso)"
    by (simp add: example_iso_def exec concrete)
  show ?thesis
    using failures_before_first_write_are_atomic
            [where dm = "3 / 2" and zmin = 0 and zmax = 10 and dtype = "''vs''"
               and s = example_iso and z = 5 and H = "- 20" and vsv = 4 and vsh = None
               and vpv = "Some 7" and vph = None and vpf = None and rho = "Some (5 / 2)"
               and Qp = 300 and Qs = 100 and etap = 0 and etas = 0 and frefp = 1 and frefs = 1
               and e = IndexError and s' = example_iso]
          failures_before_first_write_are_atomic
            [where dm = "3 / 2" and zmin = 0 and zmax = 10 and dtype = "''vs''"
               and s = example_empty and z = 9999 and H = 2 and vsv = 4 and vsh = None
               and vpv = "Some 7" and vph = None and vpf = None and rho = "Some (5 / 2)"
               and Qp = 300 and Qs = 100 and etap = 0 and etas = 0 and frefp = 1 and frefs = 1
               and e = IndexError and s' = example_empty]
      e r facts_example_iso
    by simp
qed

text \<open>\<^verbatim>\<open>perturb(0.1)\<close> with the default range \<open>zmin = 0\<close>, \<open>zmax = 9999\<close> on one isotropic
  layer of thickness 10: the S velocity of the layer is multiplied in place, then
  \<^verbatim>\<open>self.VsArr[indexb]\<close> with \<open>indexb = 1\<close> raises \<^verbatim>\<open>IndexError\<close>. The model at the raise
  differs from the model before the call.\<close>

theorem perturb_default_range_fails_after_write:
  "case perturb (1 / 10) 0 9999 ''vs'' example_iso of
     Inl (err, s') \<Rightarrow>
       err = IndexError \<and> self_of example_iso VsArr = Some [3]
       \<and> self_of s' VsArr = Some [33 / 10] \<and> s' \<noteq> example_iso
   | Inr s' \<Rightarrow> False"
proof -
  have "case perturb (1 / 10) 0 9999 ''vs'' example_iso of
     Inl (err, s') \<Rightarrow>
       err = IndexError \<and> self_of example_iso VsArr = Some [3] \<and> self_of s' VsArr = Some [33 / 10]
   | Inr s' \<Rightarrow> False"
    by (simp add: example_iso_def exec concrete)
  then show ?thesis by (auto split: sum.splits prod.splits)
qed


section \<open>Transverse-isotropic models from the column-wise constructors\<close>




end
